theory Spec2Isabelle
  imports Main "HOL-Library.Word"
begin

unbundle bit_operations_syntax

section \<open>Go run-time values\<close>

text \<open>
  The model covers two Go files: the trace-event decoder registry of package \<open>perf\<close>
  (\<open>src/unnamed/part_000\<close>) and the sensor of package \<open>sensor\<close>
  (\<open>src/pkg/sensor/sensor.go\<close>).

  A Go function either returns or ends in a run-time panic. Both are values here: a
  result is \<open>error + 'a\<close>, where \<open>Inl (Panic p)\<close> is a run-time panic that nothing in
  the two files recovers, and \<open>Inl (Err e)\<close> is a non-nil \<open>error\<close> returned
  to the caller (for \<open>decodeRawData\<close>, the spec's DecodeError). Go's \<open>int\<close> is modelled as \<open>int\<close>: every \<open>int\<close> the decoder computes
  from the payload comes from a \<open>uint16\<close> or a \<open>uint32\<close>, and an \<open>int\<close> that leaves
  the range of the payload's indices makes the next slice expression panic whether it
  wrapped around or not.
\<close>

type_synonym byte = "8 word"

datatype runtime_panic =
    IndexOutOfRange
  | SliceBoundsOutOfRange
  | IntegerDivideByZero
  | MakeSliceLenOutOfRange
  | InterfaceConversion
  | SendOnClosedChannel

datatype go_error =
    UnexpectedString
  | UndefinedDataType
  | DataLocSize int
  | InvalidType
  | OtherError string

datatype error = Panic runtime_panic | Err go_error

text \<open>
  A \<open>[]byte\<close> is a window on a backing array: \<open>elems\<close> are the bytes below \<open>len\<close>,
  \<open>spare\<close> the bytes of the backing array between \<open>len\<close> and \<open>cap\<close>. An index
  expression \<open>b[i]\<close> and the slice \<open>b[lo:]\<close> are checked against \<open>len\<close>; the
  two-index slice \<open>b[lo:hi]\<close> is checked against \<open>cap\<close>.
\<close>

record bslice =
  elems :: "byte list"
  spare :: "byte list"

definition index_at :: "bslice \<Rightarrow> int \<Rightarrow> error + byte" where
  "index_at b i =
     (if i < 0 \<or> int (length (elems b)) \<le> i then Inl (Panic IndexOutOfRange)
      else Inr (elems b ! nat i))"

definition slice_from :: "bslice \<Rightarrow> int \<Rightarrow> error + bslice" where
  "slice_from b lo =
     (if lo < 0 \<or> int (length (elems b)) < lo then Inl (Panic SliceBoundsOutOfRange)
      else Inr \<lparr>elems = drop (nat lo) (elems b), spare = spare b\<rparr>)"

definition slice_between :: "bslice \<Rightarrow> int \<Rightarrow> int \<Rightarrow> error + bslice" where
  "slice_between b lo hi =
     (if lo < 0 \<or> hi < lo \<or> int (length (elems b) + length (spare b)) < hi
      then Inl (Panic SliceBoundsOutOfRange)
      else Inr \<lparr>elems = take (nat (hi - lo)) (drop (nat lo) (elems b @ spare b)),
                spare = drop (nat hi) (elems b @ spare b)\<rparr>)"

text \<open>
  \<open>binary.LittleEndian.Uint16/Uint32/Uint64\<close>: each first touches its last byte
  (\<open>_ = b[1]\<close>, \<open>_ = b[3]\<close>, \<open>_ = b[7]\<close>), so a shorter slice panics.
\<close>

definition Uint16 :: "bslice \<Rightarrow> error + 16 word" where
  "Uint16 b =
     (case elems b of
        b0 # b1 # _ \<Rightarrow> Inr (ucast b0 OR push_bit 8 (ucast b1))
      | _ \<Rightarrow> Inl (Panic IndexOutOfRange))"

definition Uint32 :: "bslice \<Rightarrow> error + 32 word" where
  "Uint32 b =
     (case elems b of
        b0 # b1 # b2 # b3 # _ \<Rightarrow>
          Inr (ucast b0 OR push_bit 8 (ucast b1) OR push_bit 16 (ucast b2)
               OR push_bit 24 (ucast b3))
      | _ \<Rightarrow> Inl (Panic IndexOutOfRange))"

definition Uint64 :: "bslice \<Rightarrow> error + 64 word" where
  "Uint64 b =
     (case elems b of
        b0 # b1 # b2 # b3 # b4 # b5 # b6 # b7 # _ \<Rightarrow>
          Inr (ucast b0 OR push_bit 8 (ucast b1) OR push_bit 16 (ucast b2)
               OR push_bit 24 (ucast b3) OR push_bit 32 (ucast b4)
               OR push_bit 40 (ucast b5) OR push_bit 48 (ucast b6)
               OR push_bit 56 (ucast b7))
      | _ \<Rightarrow> Inl (Panic IndexOutOfRange))"

text \<open>Go's \<open>/\<close> on \<open>int\<close> truncates towards zero and panics on a zero divisor.\<close>

definition go_div :: "int \<Rightarrow> int \<Rightarrow> error + int" where
  "go_div a b =
     (if b = 0 then Inl (Panic IntegerDivideByZero)
      else Inr (sgn a * sgn b * (\<bar>a\<bar> div \<bar>b\<bar>)))"

section \<open>Trace-event fields and decoded values\<close>

text \<open>
  Modelled from the spec: the declaration of \<open>traceEventField\<close> and of the
  \<open>TraceEventFieldType...\<close> constants is in a file of package \<open>perf\<close> that is not under
  \<open>src/\<close>. The record has the members \<open>decodeRawData\<close> reads (the spec's
  FieldDescriptor: name, offset, data type, element size, array size, data-loc size); the
  constants are nine distinct \<open>int32\<close> values, one per data type of the spec.
\<close>

record traceEventField =
  FieldName :: string
  Offset :: int
  dataType :: "32 word"
  dataTypeSize :: int
  dataLocSize :: int
  arraySize :: int

definition TraceEventFieldTypeString :: "32 word" where
  "TraceEventFieldTypeString = 1"
definition TraceEventFieldTypeSignedInt8 :: "32 word" where
  "TraceEventFieldTypeSignedInt8 = 2"
definition TraceEventFieldTypeSignedInt16 :: "32 word" where
  "TraceEventFieldTypeSignedInt16 = 3"
definition TraceEventFieldTypeSignedInt32 :: "32 word" where
  "TraceEventFieldTypeSignedInt32 = 4"
definition TraceEventFieldTypeSignedInt64 :: "32 word" where
  "TraceEventFieldTypeSignedInt64 = 5"
definition TraceEventFieldTypeUnsignedInt8 :: "32 word" where
  "TraceEventFieldTypeUnsignedInt8 = 6"
definition TraceEventFieldTypeUnsignedInt16 :: "32 word" where
  "TraceEventFieldTypeUnsignedInt16 = 7"
definition TraceEventFieldTypeUnsignedInt32 :: "32 word" where
  "TraceEventFieldTypeUnsignedInt32 = 8"
definition TraceEventFieldTypeUnsignedInt64 :: "32 word" where
  "TraceEventFieldTypeUnsignedInt64 = 9"

text \<open>
  The dynamic values a decoded field holds (\<open>interface{}\<close>). A signed integer keeps its
  bits in a word and is read with \<open>sint\<close>; a Go \<open>string\<close> is its bytes.
\<close>

datatype val =
    VInt8 "8 word"
  | VInt16 "16 word"
  | VInt32 "32 word"
  | VInt64 "64 word"
  | VUint8 "8 word"
  | VUint16 "16 word"
  | VUint32 "32 word"
  | VUint64 "64 word"
  | VString "byte list"
  | VArray "val list"

type_synonym TraceEventSampleData = "string \<rightharpoonup> val"

section \<open>The decoder\<close>

definition decodeDataType :: "32 word \<Rightarrow> bslice \<Rightarrow> error + val" where
  "decodeDataType dt rawData =
     (if dt = TraceEventFieldTypeString then Inl (Err UnexpectedString)
      else if dt = TraceEventFieldTypeSignedInt8 then
        (case index_at rawData 0 of Inl e \<Rightarrow> Inl e | Inr b \<Rightarrow> Inr (VInt8 b))
      else if dt = TraceEventFieldTypeSignedInt16 then
        (case Uint16 rawData of Inl e \<Rightarrow> Inl e | Inr w \<Rightarrow> Inr (VInt16 w))
      else if dt = TraceEventFieldTypeSignedInt32 then
        (case Uint32 rawData of Inl e \<Rightarrow> Inl e | Inr w \<Rightarrow> Inr (VInt32 w))
      else if dt = TraceEventFieldTypeSignedInt64 then
        (case Uint64 rawData of Inl e \<Rightarrow> Inl e | Inr w \<Rightarrow> Inr (VInt64 w))
      else if dt = TraceEventFieldTypeUnsignedInt8 then
        (case index_at rawData 0 of Inl e \<Rightarrow> Inl e | Inr b \<Rightarrow> Inr (VUint8 b))
      else if dt = TraceEventFieldTypeUnsignedInt16 then
        (case Uint16 rawData of Inl e \<Rightarrow> Inl e | Inr w \<Rightarrow> Inr (VUint16 w))
      else if dt = TraceEventFieldTypeUnsignedInt32 then
        (case Uint32 rawData of Inl e \<Rightarrow> Inl e | Inr w \<Rightarrow> Inr (VUint32 w))
      else if dt = TraceEventFieldTypeUnsignedInt64 then
        (case Uint64 rawData of Inl e \<Rightarrow> Inl e | Inr w \<Rightarrow> Inr (VUint64 w))
      else Inl (Err UndefinedDataType))"

text \<open>
  The element loop of \<open>decodeRawData\<close> (\<open>for i := 0; i < arraySize; i++\<close>): the
  argument \<open>rawData[dataOffset:]\<close> is evaluated before \<open>decodeDataType\<close> is called, and
  the first failing element ends the loop.
\<close>

fun decodeElements :: "32 word \<Rightarrow> int \<Rightarrow> bslice \<Rightarrow> int \<Rightarrow> nat \<Rightarrow> error + val list" where
  "decodeElements dt sz rawData dataOffset 0 = Inr []"
| "decodeElements dt sz rawData dataOffset (Suc n) =
     (case slice_from rawData dataOffset of
        Inl e \<Rightarrow> Inl e
      | Inr b \<Rightarrow>
          (case decodeDataType dt b of
             Inl e \<Rightarrow> Inl e
           | Inr v \<Rightarrow>
               (case decodeElements dt sz rawData (dataOffset + sz) n of
                  Inl e \<Rightarrow> Inl e
                | Inr vs \<Rightarrow> Inr (v # vs))))"

text \<open>
  \<open>make([]interface{}, arraySize)\<close> comes first: the run time's \<open>makeslice\<close> panics
  (\<open>makeslice: len out of range\<close>) when the length is negative or when the size of the
  array, 16 bytes for each \<open>interface{}\<close>, exceeds \<open>maxAlloc\<close>, the largest allocation
  the run time admits: \<open>2^48\<close> bytes on linux/amd64, the platform of the sensor. Then
  the loop fills the array. (An allocation within \<open>maxAlloc\<close> that exhausts the memory of
  the machine ends the process with a fatal error; this is outside the model.)
\<close>

definition maxAlloc :: int where
  "maxAlloc = 2 ^ 48"

definition decodeArray :: "32 word \<Rightarrow> int \<Rightarrow> bslice \<Rightarrow> int \<Rightarrow> int \<Rightarrow> error + val" where
  "decodeArray dt sz rawData dataOffset n =
     (if n < 0 \<or> maxAlloc < 16 * n then Inl (Panic MakeSliceLenOutOfRange)
      else (case decodeElements dt sz rawData dataOffset (nat n) of
              Inl e \<Rightarrow> Inl e
            | Inr vs \<Rightarrow> Inr (VArray vs)))"

text \<open>The \<open>switch field.dataLocSize\<close>: the pair (dataOffset, dataLength).\<close>

definition dataLoc :: "traceEventField \<Rightarrow> bslice \<Rightarrow> error + (int \<times> int)" where
  "dataLoc field rawData =
     (if dataLocSize field = 4 then
        (case slice_from rawData (Offset field) of
           Inl e \<Rightarrow> Inl e
         | Inr b1 \<Rightarrow>
             (case Uint16 b1 of
                Inl e \<Rightarrow> Inl e
              | Inr off \<Rightarrow>
                  (case slice_from rawData (Offset field + 2) of
                     Inl e \<Rightarrow> Inl e
                   | Inr b2 \<Rightarrow>
                       (case Uint16 b2 of
                          Inl e \<Rightarrow> Inl e
                        | Inr len \<Rightarrow> Inr (uint off, uint len)))))
      else if dataLocSize field = 8 then
        (case slice_from rawData (Offset field) of
           Inl e \<Rightarrow> Inl e
         | Inr b1 \<Rightarrow>
             (case Uint32 b1 of
                Inl e \<Rightarrow> Inl e
              | Inr off \<Rightarrow>
                  (case slice_from rawData (Offset field + 4) of
                     Inl e \<Rightarrow> Inl e
                   | Inr b2 \<Rightarrow>
                       (case Uint32 b2 of
                          Inl e \<Rightarrow> Inl e
                        | Inr len \<Rightarrow> Inr (uint off, uint len)))))
      else Inl (Err (DataLocSize (dataLocSize field))))"

text \<open>The dynamic string: one trailing NUL is dropped, then the bytes are copied.\<close>

definition decodeString :: "bslice \<Rightarrow> int \<Rightarrow> int \<Rightarrow> error + val" where
  "decodeString rawData dataOffset dataLength =
     (case (if dataLength > 0 then
              (case index_at rawData (dataOffset + dataLength - 1) of
                 Inl e \<Rightarrow> Inl e
               | Inr b \<Rightarrow> Inr (if b = 0 then dataLength - 1 else dataLength))
            else Inr dataLength) of
        Inl e \<Rightarrow> Inl e
      | Inr dataLength' \<Rightarrow>
          (case slice_between rawData dataOffset (dataOffset + dataLength') of
             Inl e \<Rightarrow> Inl e
           | Inr s \<Rightarrow> Inr (VString (elems s))))"

text \<open>One iteration of \<open>for _, field := range d.fields\<close>: the value stored under
  \<open>field.FieldName\<close>, or the error or panic that ends \<open>decodeRawData\<close>.\<close>

definition decodeField :: "traceEventField \<Rightarrow> bslice \<Rightarrow> error + val" where
  "decodeField field rawData =
     (if dataLocSize field > 0 then
        (case dataLoc field rawData of
           Inl e \<Rightarrow> Inl e
         | Inr (dataOffset, dataLength) \<Rightarrow>
             if dataType field = TraceEventFieldTypeString
             then decodeString rawData dataOffset dataLength
             else (case go_div dataLength (dataTypeSize field) of
                     Inl e \<Rightarrow> Inl e
                   | Inr n \<Rightarrow>
                       decodeArray (dataType field) (dataTypeSize field) rawData dataOffset n))
      else if arraySize field = 0 then
        (case slice_from rawData (Offset field) of
           Inl e \<Rightarrow> Inl e
         | Inr b \<Rightarrow> decodeDataType (dataType field) b)
      else decodeArray (dataType field) (dataTypeSize field) rawData (Offset field)
             (arraySize field))"

text \<open>
  \<open>decodeRawData\<close>. The Go map \<open>d.fields\<close> is ranged over in an order the run time
  picks; the model takes the fields as the list in that order, so a statement about every
  list is a statement about every order.
\<close>

fun decodeFields :: "traceEventField list \<Rightarrow> bslice \<Rightarrow> TraceEventSampleData
    \<Rightarrow> error + TraceEventSampleData" where
  "decodeFields [] rawData data = Inr data"
| "decodeFields (field # rest) rawData data =
     (case decodeField field rawData of
        Inl e \<Rightarrow> Inl e
      | Inr v \<Rightarrow> decodeFields rest rawData (data(FieldName field \<mapsto> v)))"

definition decodeRawData :: "traceEventField list \<Rightarrow> bslice \<Rightarrow> error + TraceEventSampleData" where
  "decodeRawData flds rawData = decodeFields flds rawData Map.empty"


section \<open>The decoder registry\<close>

text \<open>
  Modelled from the spec: the declaration of \<open>SampleRecord\<close> is not under \<open>src/\<close> (a
  perf_event sample is a raw byte payload plus metadata). The record has the members the
  two files read: the raw payload, the sample time (\<open>uint64\<close>) and the CPU
  (\<open>uint32\<close>). A \<open>TraceEventDecoderFn\<close> returns a pair (\<open>interface{}\<close>, \<open>error\<close>),
  each of which may be nil.
\<close>

record SampleRecord =
  RawData :: bslice
  Time :: "64 word"
  CPU :: "32 word"

type_synonym 'ev TraceEventDecoderFn =
  "SampleRecord \<Rightarrow> TraceEventSampleData \<Rightarrow> 'ev option \<times> go_error option"

record 'ev traceEventDecoder =
  fields' :: "traceEventField list"
  decoderfn :: "'ev TraceEventDecoderFn"

text \<open>
  Modelled from the spec: \<open>getTraceEventFormat\<close> is not under \<open>src/\<close>. It reads the
  event's \<open>format\<close> file under the tracing directory and yields the event id and the
  field set, or an error. The files it reads are an input of each call: \<open>tracefs\<close> is
  what the call finds for (tracing directory, event name).
\<close>

type_synonym tracefs = "string \<Rightarrow> string \<Rightarrow> go_error + (16 word \<times> traceEventField list)"

definition newTraceEventDecoder :: "tracefs \<Rightarrow> string \<Rightarrow> string \<Rightarrow> 'ev TraceEventDecoderFn
    \<Rightarrow> go_error + ('ev traceEventDecoder \<times> 16 word)" where
  "newTraceEventDecoder fs dir name fn =
     (case fs dir name of
        Inl err \<Rightarrow> Inl err
      | Inr (id', flds) \<Rightarrow> Inr (\<lparr>fields' = flds, decoderfn = fn\<rparr>, id'))"

record 'ev decoderMap =
  decoders :: "16 word \<rightharpoonup> 'ev traceEventDecoder"
  names :: "string \<rightharpoonup> 16 word"

definition newDecoderMap :: "'ev decoderMap" where
  "newDecoderMap = \<lparr>decoders = Map.empty, names = Map.empty\<rparr>"

definition add :: "'ev decoderMap \<Rightarrow> string \<Rightarrow> 16 word \<Rightarrow> 'ev traceEventDecoder \<Rightarrow> 'ev decoderMap" where
  "add dm name id' decoder =
     dm\<lparr>decoders := (decoders dm)(id' \<mapsto> decoder), names := (names dm)(name \<mapsto> id')\<rparr>"

text \<open>
  \<open>traceEventDecoderMap\<close>. The \<open>*decoderMap\<close> that \<open>active\<close> holds is an address: the
  objects \<open>newDecoderMap\<close> has allocated live in \<open>heap\<close>, the next free address is
  \<open>nextAddr\<close>, and \<open>active\<close> is \<open>None\<close> while the \<open>atomic.Value\<close> is empty. A reader
  that has loaded \<open>active\<close> holds the address and sees whatever the heap has there. The
  mutex is not modelled: the operations run one after the other.
\<close>

record 'ev traceEventDecoderMap =
  heap :: "nat \<Rightarrow> 'ev decoderMap"
  nextAddr :: nat
  active :: "nat option"
  tracingDir :: string

definition newTraceEventDecoderMap :: "string \<Rightarrow> 'ev traceEventDecoderMap" where
  "newTraceEventDecoderMap dir =
     \<lparr>heap = (\<lambda>_. newDecoderMap), nextAddr = 0, active = None, tracingDir = dir\<rparr>"

definition getDecoderMap :: "'ev traceEventDecoderMap \<Rightarrow> nat option" where
  "getDecoderMap m = active m"

definition addDecoderInPlace :: "'ev traceEventDecoderMap \<Rightarrow> tracefs \<Rightarrow> string
    \<Rightarrow> 'ev TraceEventDecoderFn \<Rightarrow> (go_error + 16 word) \<times> 'ev traceEventDecoderMap" where
  "addDecoderInPlace m fs name fn =
     (case newTraceEventDecoder fs (tracingDir m) name fn of
        Inl err \<Rightarrow> (Inl err, m)
      | Inr (decoder, id') \<Rightarrow>
          (case getDecoderMap m of
             None \<Rightarrow>
               (let dm = nextAddr m;
                    m1 = m\<lparr>heap := (heap m)(dm := newDecoderMap), nextAddr := Suc dm,
                           active := Some dm\<rparr>
                in (Inr id', m1\<lparr>heap := (heap m1)(dm := add (heap m1 dm) name id' decoder)\<rparr>))
           | Some dm \<Rightarrow>
               (Inr id', m\<lparr>heap := (heap m)(dm := add (heap m dm) name id' decoder)\<rparr>)))"

definition AddDecoder :: "'ev traceEventDecoderMap \<Rightarrow> tracefs \<Rightarrow> string
    \<Rightarrow> 'ev TraceEventDecoderFn \<Rightarrow> (go_error + 16 word) \<times> 'ev traceEventDecoderMap" where
  "AddDecoder m fs name fn =
     (case newTraceEventDecoder fs (tracingDir m) name fn of
        Inl err \<Rightarrow> (Inl err, m)
      | Inr (decoder, id') \<Rightarrow>
          (let odm = getDecoderMap m;
               ndm = nextAddr m;
               copied = (case odm of
                           None \<Rightarrow> newDecoderMap
                         | Some a \<Rightarrow> \<lparr>decoders = decoders (heap m a), names = names (heap m a)\<rparr>)
           in (Inr id',
               m\<lparr>heap := (heap m)(ndm := add copied name id' decoder), nextAddr := Suc ndm,
                 active := Some ndm\<rparr>)))"

definition removeDecoderInPlace :: "'ev traceEventDecoderMap \<Rightarrow> string \<Rightarrow> 'ev traceEventDecoderMap" where
  "removeDecoderInPlace m name =
     (case getDecoderMap m of
        None \<Rightarrow> m
      | Some dm \<Rightarrow>
          (case names (heap m dm) name of
             None \<Rightarrow> m
           | Some id' \<Rightarrow>
               m\<lparr>heap := (heap m)(dm := (heap m dm)\<lparr>names := (names (heap m dm))(name := None),
                    decoders := (decoders (heap m dm))(id' := None)\<rparr>)\<rparr>))"

definition RemoveDecoder :: "'ev traceEventDecoderMap \<Rightarrow> string \<Rightarrow> 'ev traceEventDecoderMap" where
  "RemoveDecoder m name =
     (case getDecoderMap m of
        None \<Rightarrow> m
      | Some dm \<Rightarrow>
          (case names (heap m dm) name of
             None \<Rightarrow> m
           | Some id' \<Rightarrow>
               (case getDecoderMap m of
                  None \<Rightarrow> m
                | Some odm \<Rightarrow>
                    (let ndm = nextAddr m
                     in m\<lparr>heap := (heap m)(ndm :=
                              \<lparr>decoders = (decoders (heap m odm))(id' := None),
                               names = (names (heap m odm))(name := None)\<rparr>),
                          nextAddr := Suc ndm, active := Some ndm\<rparr>))))"

definition getDecoder :: "'ev traceEventDecoderMap \<Rightarrow> 16 word \<Rightarrow> 'ev traceEventDecoder option" where
  "getDecoder m eventType =
     (case getDecoderMap m of
        None \<Rightarrow> None
      | Some dm \<Rightarrow> decoders (heap m dm) eventType)"

text \<open>
  \<open>DecodeSample\<close> returns three values, each possibly nil; a panic of \<open>Uint64\<close> or of
  \<open>decodeRawData\<close> is not recovered.
\<close>

definition DecodeSample :: "'ev traceEventDecoderMap \<Rightarrow> SampleRecord
    \<Rightarrow> runtime_panic + (TraceEventSampleData option \<times> 'ev option \<times> go_error option)" where
  "DecodeSample m sample =
     (case Uint64 (RawData sample) of
        Inl (Panic p) \<Rightarrow> Inl p
      | Inl (Err e) \<Rightarrow> Inr (None, None, Some e)
      | Inr w \<Rightarrow>
          (let eventType = (ucast w :: 16 word)
           in case getDecoder m eventType of
                None \<Rightarrow> Inr (None, None, None)
              | Some decoder \<Rightarrow>
                  (case decodeRawData (fields' decoder) (RawData sample) of
                     Inl (Panic p) \<Rightarrow> Inl p
                   | Inl (Err e) \<Rightarrow> Inr (None, None, Some e)
                   | Inr data \<Rightarrow>
                       (case decoderfn decoder sample data of
                          (decodedSample, err) \<Rightarrow> Inr (Some data, decodedSample, err)))))"


section \<open>SHA-256 and hex encoding\<close>

text \<open>
  \<open>crypto/sha256.Sum256\<close> and \<open>encoding/hex.EncodeToString\<close> are Go's standard
  library. \<open>Sum256\<close> is written out after FIPS 180-4, on integers below \<open>2 ^ 32\<close> with
  the wrap-around explicit: padding, the message schedule, 64 rounds per 64-byte block.
  \<open>K256\<close> are the round constants and \<open>H256\<close> the initial hash value, in decimal.
\<close>

definition add32 :: "int \<Rightarrow> int \<Rightarrow> int" where
  "add32 x y = (x + y) mod 4294967296"

definition rotr32 :: "nat \<Rightarrow> int \<Rightarrow> int" where
  "rotr32 n x = x div 2 ^ n + (x mod 2 ^ n) * 2 ^ (32 - n)"

definition not32 :: "int \<Rightarrow> int" where
  "not32 x = 4294967295 - x"

definition K256 :: "int list" where
  "K256 =
    [1116352408, 1899447441, 3049323471, 3921009573, 961987163, 1508970993, 2453635748,
     2870763221, 3624381080, 310598401, 607225278, 1426881987, 1925078388, 2162078206,
     2614888103, 3248222580, 3835390401, 4022224774, 264347078, 604807628, 770255983,
     1249150122, 1555081692, 1996064986, 2554220882, 2821834349, 2952996808,
     3210313671, 3336571891, 3584528711, 113926993, 338241895, 666307205, 773529912,
     1294757372, 1396182291, 1695183700, 1986661051, 2177026350, 2456956037,
     2730485921, 2820302411, 3259730800, 3345764771, 3516065817, 3600352804,
     4094571909, 275423344, 430227734, 506948616, 659060556, 883997877, 958139571,
     1322822218, 1537002063, 1747873779, 1955562222, 2024104815, 2227730452,
     2361852424, 2428436474, 2756734187, 3204031479, 3329325298]"

definition H256 :: "int list" where
  "H256 =
    [1779033703, 3144134277, 1013904242, 2773480762, 1359893119, 2600822924, 528734635,
     1541459225]"

definition be32 :: "int list \<Rightarrow> int" where
  "be32 bs = foldl (\<lambda>acc b. acc * 256 + b) 0 bs"

fun chunks :: "nat \<Rightarrow> nat \<Rightarrow> 'a list \<Rightarrow> 'a list list" where
  "chunks k 0 xs = []"
| "chunks k (Suc n) xs = take k xs # chunks k n (drop k xs)"

definition sha_pad :: "int list \<Rightarrow> int list" where
  "sha_pad msg =
     msg @ [128] @ replicate ((119 - length msg mod 64) mod 64) 0 @
     map (\<lambda>i. (int (8 * length msg) div 2 ^ (8 * (7 - i))) mod 256) [0..<8]"

fun schedule :: "nat \<Rightarrow> int list \<Rightarrow> int list" where
  "schedule 0 w = w"
| "schedule (Suc n) w =
     (let k = length w;
          w15 = w ! (k - 15);
          w2 = w ! (k - 2);
          s0 = rotr32 7 w15 XOR rotr32 18 w15 XOR (w15 div 8);
          s1 = rotr32 17 w2 XOR rotr32 19 w2 XOR (w2 div 1024)
      in schedule n (w @ [add32 (add32 (w ! (k - 16)) s0) (add32 (w ! (k - 7)) s1)]))"

fun sha_round :: "int list \<Rightarrow> int \<times> int \<Rightarrow> int list" where
  "sha_round [a, b, c, d, e, f, g, h] (k, w) =
     (let S1 = rotr32 6 e XOR rotr32 11 e XOR rotr32 25 e;
          ch = (e AND f) XOR (not32 e AND g);
          t1 = (h + S1 + ch + k + w) mod 4294967296;
          S0 = rotr32 2 a XOR rotr32 13 a XOR rotr32 22 a;
          mj = (a AND b) XOR (a AND c) XOR (b AND c);
          t2 = add32 S0 mj
      in [add32 t1 t2, a, b, c, add32 d t1, e, f, g])"
| "sha_round st (k, w) = st"

definition compress :: "int list \<Rightarrow> int list \<Rightarrow> int list" where
  "compress st blk =
     map2 add32 st (foldl sha_round st (zip K256 (schedule 48 (map be32 (chunks 4 16 blk)))))"

definition word_bytes :: "int \<Rightarrow> int list" where
  "word_bytes w = [w div 16777216, (w div 65536) mod 256, (w div 256) mod 256, w mod 256]"

definition Sum256 :: "byte list \<Rightarrow> byte list" where
  "Sum256 msg =
     (let p = sha_pad (map uint msg)
      in map word_of_int
           (concat (map word_bytes (foldl compress H256 (chunks 64 (length p div 64) p)))))"

definition hexdigit :: "nat \<Rightarrow> char" where
  "hexdigit n = ''0123456789abcdef'' ! (n mod 16)"

definition EncodeToString :: "byte list \<Rightarrow> string" where
  "EncodeToString bs = concat (map (\<lambda>b. [hexdigit (unat b div 16), hexdigit (unat b mod 16)]) bs)"

section \<open>The sensor\<close>

text \<open>
  The members of \<open>Sensor\<close> that event stamping reads and writes. \<open>Events\<close> is
  \<open>Metrics.Events\<close> (the declaration of \<open>MetricsCounters\<close> is not under \<open>src/\<close>; the
  counter is taken as a \<open>uint64\<close>). \<open>int64\<close> values keep their bits in a \<open>64 word\<close>.
\<close>

record Sensor =
  ID :: string
  sequenceNumber :: "64 word"
  bootMonotimeNanos :: "64 word"
  Events :: "64 word"

text \<open>Modelled from the spec: \<open>api.TelemetryEvent\<close> is declared outside \<open>src/\<close>. The
  record has the members the sensor sets (the spec's id, sensor id, monotime, sequence,
  pid, process id, container id and name, image id and name, and the CPU); a fresh event
  has Go's zero values.\<close>

record TelemetryEvent =
  Id' :: string
  SensorId :: string
  SensorMonotimeNanos :: "64 word"
  SensorSequenceNumber :: "64 word"
  ProcessPid :: "32 word"
  Cpu :: "32 word"
  ProcessId :: string
  ContainerId :: string
  ContainerName :: string
  ImageId :: string
  ImageName :: string

text \<open>\<open>NewSensor\<close>: \<open>randomBytes\<close> is what \<open>rand.Read\<close> filled in (32 bytes), \<open>clock\<close>
  the reading of \<open>CLOCK_MONOTONIC_RAW\<close> in nanoseconds. The subscription map, the
  monitor and the container event repeater (the only source of \<open>NewSensor\<close>'s error)
  take no part in event stamping and are left out.\<close>

definition NewSensor :: "byte list \<Rightarrow> 64 word \<Rightarrow> Sensor" where
  "NewSensor randomBytes clock =
     \<lparr>ID = EncodeToString randomBytes, sequenceNumber = 0, bootMonotimeNanos = clock,
      Events = 0\<rparr>"

definition currentMonotimeNanos :: "Sensor \<Rightarrow> 64 word \<Rightarrow> 64 word" where
  "currentMonotimeNanos s clock = clock - bootMonotimeNanos s"

definition nextSequenceNumber :: "Sensor \<Rightarrow> 64 word \<times> Sensor" where
  "nextSequenceNumber s =
     (let s1 = s\<lparr>sequenceNumber := sequenceNumber s + 1\<rparr>
      in (sequenceNumber s1, s1))"

text \<open>
  \<open>binary.Write(buf, binary.LittleEndian, data)\<close> of Go's \<open>encoding/binary\<close>: it
  encodes fixed-size values only (booleans, sized integers, floats, and arrays, slices
  and structs of these). A \<open>string\<close> has no fixed size: \<open>Write\<close> finds no size for
  it, writes nothing and returns an error (\<open>binary.Write: invalid type string\<close>). A
  \<open>uint64\<close> or an \<open>int64\<close> is appended as 8 little-endian bytes.
\<close>

datatype go_data = DString string | DUint64 "64 word" | DInt64 "64 word"

definition PutUint64 :: "64 word \<Rightarrow> byte list" where
  "PutUint64 v = map (\<lambda>i. ucast (drop_bit (8 * i) v)) [0..<8]"

definition binary_Write :: "byte list \<Rightarrow> go_data \<Rightarrow> go_error option \<times> byte list" where
  "binary_Write buf d =
     (case d of
        DString _ \<Rightarrow> (Some InvalidType, buf)
      | DUint64 v \<Rightarrow> (None, buf @ PutUint64 v)
      | DInt64 v \<Rightarrow> (None, buf @ PutUint64 v))"

text \<open>\<open>NewEvent\<close> drops the three results of \<open>binary.Write\<close>.\<close>

definition NewEvent :: "Sensor \<Rightarrow> 64 word \<Rightarrow> TelemetryEvent \<times> Sensor" where
  "NewEvent s clock =
     (let monotime = currentMonotimeNanos s clock;
          (sequenceNumber', s1) = nextSequenceNumber s;
          buf0 = [];
          buf1 = snd (binary_Write buf0 (DString (ID s1)));
          buf2 = snd (binary_Write buf1 (DUint64 sequenceNumber'));
          buf3 = snd (binary_Write buf2 (DInt64 monotime));
          h = Sum256 buf3;
          eventID = EncodeToString h;
          s2 = s1\<lparr>Events := Events s1 + 1\<rparr>
      in (\<lparr>Id' = eventID, SensorId = ID s2, SensorMonotimeNanos = monotime,
           SensorSequenceNumber = sequenceNumber', ProcessPid = 0, Cpu = 0, ProcessId = [],
           ContainerId = [], ContainerName = [], ImageId = [], ImageName = []\<rparr>, s2))"

text \<open>The events of successive calls of \<open>NewEvent\<close> on one sensor, one clock reading
  per call.\<close>

fun NewEvents :: "Sensor \<Rightarrow> 64 word list \<Rightarrow> TelemetryEvent list" where
  "NewEvents s [] = []"
| "NewEvents s (clock # clocks) = (case NewEvent s clock of (e, s') \<Rightarrow> e # NewEvents s' clocks)"

text \<open>
  Modelled from the spec: \<open>ProcessInfoCache\<close> and \<open>container.GetInfo\<close> are
  collaborators that are not under \<open>src/\<close>: their answers are inputs. A lookup that reports \<open>ok = false\<close>, and a nil
  \<open>*container.Info\<close>, are \<open>None\<close>.
\<close>

record ProcessInfoCache =
  ProcessID :: "int \<Rightarrow> string option"
  ProcessContainerID :: "int \<Rightarrow> string option"

record ContainerInfo =
  Name :: string
  ImageID :: string
  ImageName' :: string

text \<open>\<open>data["common_pid"].(int32)\<close> is a type assertion without the \<open>ok\<close> result:
  it panics unless the map holds an \<open>int32\<close> under the key.\<close>

definition NewEventFromSample :: "Sensor \<Rightarrow> 64 word \<Rightarrow> ProcessInfoCache
    \<Rightarrow> (string \<Rightarrow> ContainerInfo option) \<Rightarrow> SampleRecord \<Rightarrow> TraceEventSampleData
    \<Rightarrow> (runtime_panic + TelemetryEvent) \<times> Sensor" where
  "NewEventFromSample s clock processCache GetInfo sample data =
     (case NewEvent s clock of
        (e0, s') \<Rightarrow>
          (let e1 = e0\<lparr>SensorMonotimeNanos := Time sample - bootMonotimeNanos s'\<rparr>
           in case data ''common_pid'' of
                Some (VInt32 pid) \<Rightarrow>
                  (let e2 = e1\<lparr>ProcessPid := pid, Cpu := CPU sample\<rparr>;
                       e3 = (case ProcessID processCache (sint pid) of
                               Some processID \<Rightarrow> e2\<lparr>ProcessId := processID\<rparr>
                             | None \<Rightarrow> e2);
                       e4 = (case ProcessContainerID processCache (sint pid) of
                               Some containerID \<Rightarrow>
                                 (case GetInfo containerID of
                                    Some containerInfo \<Rightarrow>
                                      e3\<lparr>ContainerId := containerID,
                                         ContainerName := Name containerInfo,
                                         ImageId := ImageID containerInfo,
                                         ImageName := ImageName' containerInfo\<rparr>
                                  | None \<Rightarrow> e3\<lparr>ContainerId := containerID\<rparr>)
                             | None \<Rightarrow> e3)
                   in (Inr e4, s'))
              | _ \<Rightarrow> (Inl InterfaceConversion, s')))"

section \<open>Dispatch\<close>

text \<open>
  A subscriber's \<open>data\<close> channel is a buffered Go channel, shared by every
  \<open>subscription\<close> entry that holds it: the channels live in a store, a subscription
  holds a channel's number (\<open>None\<close> is the nil channel). A channel is open or closed:
  the goroutine that \<open>createPerfEventStream\<close> starts closes the \<open>data\<close> channel when
  the subscription is torn down (\<open>defer close(data)\<close>). A send \<open>ch <- v\<close> on a closed
  channel panics; on an open channel it proceeds when the buffer has room and otherwise
  blocks the sending goroutine until a receiver takes an element: \<open>chan_send\<close> is the
  panic, \<open>None\<close> when the send cannot proceed, or the channel after the send. Receiving
  and closing are done by other goroutines; a state of the channels is what the
  dispatcher finds.

  \<open>filter.Evaluate\<close> (package \<open>expression\<close>) is an input: a filter is the function
  from the sample to the error of \<open>Evaluate\<close> or to \<open>IsValueTrue\<close> of its value.

  Modelled from the spec: the declarations of \<open>subscription\<close> and of
  \<open>perf.EventMonitorSample\<close> are not under \<open>src/\<close>. The records have the members
  \<open>dispatchSample\<close> reads: a subscription's sink channel and optional filter; a sample's
  error, decoded sample (nil, a \<open>*api.TelemetryEvent\<close> that may be a nil pointer, or a
  value of another type) and decoded data.
\<close>

record 'e chan =
  buf :: "'e list"
  capacity :: nat
  closed :: bool

definition chan_send :: "'e chan \<Rightarrow> 'e \<Rightarrow> runtime_panic + 'e chan option" where
  "chan_send c v =
     (if closed c then Inl SendOnClosedChannel
      else if length (buf c) < capacity c then Inr (Some (c\<lparr>buf := buf c @ [v]\<rparr>))
      else Inr None)"

datatype 'o decoded = NilInterface | Telemetry "TelemetryEvent option" | OtherSample 'o

record 'o EventMonitorSample =
  Err' :: "go_error option"
  DecodedSample :: "'o decoded"
  DecodedData :: TraceEventSampleData

record 'o subscription =
  data' :: "nat option"
  filter' :: "('o EventMonitorSample \<Rightarrow> go_error + bool) option"

datatype 'c outcome = Returned 'c | Blocked nat 'c | Panicked runtime_panic 'c

text \<open>
  Modelled from the spec: \<open>safeSubscriptionMap.getMap\<close> and \<open>subscriptionMap.forEach\<close>
  are not under \<open>src/\<close>; \<open>forEach\<close> calls the function once for each (event id,
  subscription id, subscription) of the snapshot. The snapshot is the list of these
  triples in the order of the iteration. \<open>forEach_send\<close> is \<open>forEach\<close> applied to the
  function literal of \<open>dispatchSample\<close>; it ends \<open>Blocked\<close> on the channel whose send
  cannot proceed, or \<open>Panicked\<close> at the send on a closed channel, with the channels as
  they are at that moment.
\<close>

fun forEach_send :: "(64 word \<times> 64 word \<times> 'o subscription) list \<Rightarrow> 'o EventMonitorSample
    \<Rightarrow> TelemetryEvent \<Rightarrow> (nat \<Rightarrow> TelemetryEvent chan) \<Rightarrow> (nat \<Rightarrow> TelemetryEvent chan) outcome" where
  "forEach_send [] sample event chans = Returned chans"
| "forEach_send ((eventID, subscriptionID, s) # rest) sample event chans =
     (case data' s of
        None \<Rightarrow> forEach_send rest sample event chans
      | Some ch \<Rightarrow>
          (if (case filter' s of
                 None \<Rightarrow> True
               | Some f \<Rightarrow> (case f sample of Inl err \<Rightarrow> False | Inr v \<Rightarrow> v))
           then (case chan_send (chans ch) event of
                   Inl p \<Rightarrow> Panicked p chans
                 | Inr None \<Rightarrow> Blocked ch chans
                 | Inr (Some c) \<Rightarrow> forEach_send rest sample event (chans(ch := c)))
           else forEach_send rest sample event chans))"

definition dispatchSample :: "(64 word \<times> 64 word \<times> 'o subscription) list \<Rightarrow> 64 word
    \<Rightarrow> 'o EventMonitorSample \<Rightarrow> (nat \<Rightarrow> TelemetryEvent chan) \<Rightarrow> (nat \<Rightarrow> TelemetryEvent chan) outcome" where
  "dispatchSample eventMap eventID sample chans =
     (case DecodedSample sample of
        Telemetry (Some event) \<Rightarrow> forEach_send eventMap sample event chans
      | _ \<Rightarrow> Returned chans)"


section \<open>Notions the properties are stated with\<close>

subsection \<open>Payload layout\<close>

text \<open>
  The little-endian bytes of a word, lowest byte first, and the number a byte sequence
  denotes in little-endian.
\<close>

fun le_bytes :: "nat \<Rightarrow> 'a::len word \<Rightarrow> byte list" where
  "le_bytes 0 w = []"
| "le_bytes (Suc n) w = ucast w # le_bytes n (drop_bit 8 w)"

fun le_nat :: "byte list \<Rightarrow> nat" where
  "le_nat [] = 0"
| "le_nat (b # bs) = unat b + 256 * le_nat bs"

fun le_word :: "byte list \<Rightarrow> 'a::len word" where
  "le_word [] = 0"
| "le_word (b # bs) = ucast b OR push_bit 8 (le_word bs)"

text \<open>The width in bytes of an integer data type; 0 for a string or an undefined type.\<close>

definition width :: "32 word \<Rightarrow> int" where
  "width dt =
     (if dt = TraceEventFieldTypeSignedInt8 \<or> dt = TraceEventFieldTypeUnsignedInt8 then 1
      else if dt = TraceEventFieldTypeSignedInt16 \<or> dt = TraceEventFieldTypeUnsignedInt16 then 2
      else if dt = TraceEventFieldTypeSignedInt32 \<or> dt = TraceEventFieldTypeUnsignedInt32 then 4
      else if dt = TraceEventFieldTypeSignedInt64 \<or> dt = TraceEventFieldTypeUnsignedInt64 then 8
      else 0)"













subsection \<open>Schema faults and reads outside the payload\<close>

text \<open>The errors a data type can raise in \<open>decodeDataType\<close>, and the errors a field
  descriptor can raise whatever the payload is.\<close>

definition type_fault :: "32 word \<Rightarrow> go_error \<Rightarrow> bool" where
  "type_fault dt e =
     ((dt = TraceEventFieldTypeString \<and> e = UnexpectedString) \<or>
      (dt \<noteq> TraceEventFieldTypeString \<and> width dt = 0 \<and> e = UndefinedDataType))"

definition schema_fault :: "traceEventField \<Rightarrow> go_error \<Rightarrow> bool" where
  "schema_fault f e =
     (if dataLocSize f > 0 then
        (if dataLocSize f = 4 \<or> dataLocSize f = 8
         then dataType f \<noteq> TraceEventFieldTypeString \<and> type_fault (dataType f) e
         else e = DataLocSize (dataLocSize f))
      else type_fault (dataType f) e)"

definition fault_free :: "traceEventField \<Rightarrow> bool" where
  "fault_free f =
     (if dataLocSize f > 0 then
        (dataLocSize f = 4 \<or> dataLocSize f = 8) \<and>
        (dataType f = TraceEventFieldTypeString \<or> 0 < width (dataType f))
      else 0 < width (dataType f))"

text \<open>The bytes the schema gives a field reach outside the payload: the
  \<open>__data_loc\<close> word of a dynamic field, the scalar, or the fixed array.\<close>

definition reads_outside :: "traceEventField \<Rightarrow> byte list \<Rightarrow> bool" where
  "reads_outside f raw =
     (if dataLocSize f > 0 then
        Offset f < 0 \<or> int (length raw) < Offset f + dataLocSize f
      else if arraySize f = 0 then
        Offset f < 0 \<or> int (length raw) < Offset f + width (dataType f)
      else 0 < arraySize f \<and> dataTypeSize f = width (dataType f) \<and>
           (Offset f < 0 \<or> int (length raw) < Offset f + arraySize f * width (dataType f)))"

text \<open>The region of a dynamic field that the decoder reads reaches outside the payload:
  a string of at least one byte, or the whole elements of an array of at least one
  element (\<open>dataLoc\<close> is the pair the \<open>__data_loc\<close> word holds).\<close>

definition region_outside :: "traceEventField \<Rightarrow> bslice \<Rightarrow> bool" where
  "region_outside f raw =
     (0 < dataLocSize f \<and>
      (case dataLoc f raw of
         Inl e \<Rightarrow> False
       | Inr (off, len) \<Rightarrow>
           if dataType f = TraceEventFieldTypeString
           then 0 < len \<and> int (length (elems raw)) < off + len
           else dataTypeSize f = width (dataType f) \<and> 0 < width (dataType f) \<and>
                width (dataType f) \<le> len \<and>
                int (length (elems raw)) < off + (len div width (dataType f)) * width (dataType f)))"

subsection \<open>The event type of a sample\<close>

text \<open>The low 16 bits of the little-endian number in the first 8 bytes.\<close>

definition lo16_le_u64 :: "byte list \<Rightarrow> 16 word" where
  "lo16_le_u64 raw = of_nat (le_nat (take 8 raw) mod 2 ^ 16)"

subsection \<open>Runs of the registry\<close>

datatype 'ev registry_op = OpAdd tracefs string "'ev TraceEventDecoderFn" | OpRemove string

fun apply_op :: "'ev traceEventDecoderMap \<Rightarrow> 'ev registry_op \<Rightarrow> 'ev traceEventDecoderMap" where
  "apply_op m (OpAdd fs name fn) = snd (AddDecoder m fs name fn)"
| "apply_op m (OpRemove name) = RemoveDecoder m name"

definition run :: "'ev registry_op list \<Rightarrow> 'ev traceEventDecoderMap \<Rightarrow> 'ev traceEventDecoderMap" where
  "run ops m = foldl apply_op m ops"

text \<open>
  What the calls have registered: per name, the id and the decoder of the latest
  successful \<open>OpAdd\<close> that no \<open>OpRemove\<close> has followed.
\<close>

fun track_op :: "string \<Rightarrow> (string \<rightharpoonup> 16 word \<times> 'ev traceEventDecoder) \<Rightarrow> 'ev registry_op
    \<Rightarrow> (string \<rightharpoonup> 16 word \<times> 'ev traceEventDecoder)" where
  "track_op dir r (OpAdd fs name fn) =
     (case newTraceEventDecoder fs dir name fn of
        Inl err \<Rightarrow> r
      | Inr (decoder, id') \<Rightarrow> r(name \<mapsto> (id', decoder)))"
| "track_op dir r (OpRemove name) = r(name := None)"

definition registered :: "string \<Rightarrow> 'ev registry_op list \<Rightarrow> (string \<rightharpoonup> 16 word \<times> 'ev traceEventDecoder)" where
  "registered dir ops = foldl (track_op dir) Map.empty ops"

text \<open>
  A run keeps the ids of the registered names apart when, at each \<open>AddDecoder\<close> for
  which the schema loader answers, the id it answers is not at that moment the id of
  another registered name, and is the id the name is registered with if the name is
  registered. \<open>regd\<close> holds the (name, id) pairs registered at that moment. Names that
  are never registered at the same time may share an id, and a name that has been removed
  may come back with another id.
\<close>

fun ids_apart :: "string \<Rightarrow> (string \<times> 16 word) list \<Rightarrow> 'ev registry_op list \<Rightarrow> bool" where
  "ids_apart dir regd [] = True"
| "ids_apart dir regd (OpAdd fs name fn # ops) =
     (case fs dir name of
        Inl err \<Rightarrow> ids_apart dir regd ops
      | Inr (id', flds) \<Rightarrow>
          list_all (\<lambda>(n, i). (n = name) = (i = id')) regd \<and>
          ids_apart dir ((name, id') # regd) ops)"
| "ids_apart dir regd (OpRemove name # ops) =
     ids_apart dir (filter (\<lambda>(n, i). n \<noteq> name) regd) ops"

text \<open>The two maps of a snapshot are in bijection.\<close>

definition bijection :: "'ev decoderMap \<Rightarrow> bool" where
  "bijection dm =
     ((\<forall>n i. names dm n = Some i \<longrightarrow> decoders dm i \<noteq> None) \<and>
      (\<forall>i. decoders dm i \<noteq> None \<longrightarrow> (\<exists>n. names dm n = Some i)) \<and>
      (\<forall>n n' i. names dm n = Some i \<and> names dm n' = Some i \<longrightarrow> n = n'))"

text \<open>
  Notions of the proofs about runs. \<open>pointers_ok\<close>: the published address has been
  allocated. \<open>mirrors dm r\<close>: the snapshot \<open>dm\<close> holds exactly what \<open>r\<close> records as
  registered: \<open>by_name[n] = id\<close> if and only if \<open>n\<close> is registered with \<open>id\<close>, and
  \<open>by_id[id]\<close> is a decoder \<open>d\<close> if and only if some name is registered with \<open>id\<close> and
  \<open>d\<close>. \<open>consistent_set\<close>: in a set of (name, id) pairs, no name has two ids and no
  id two names. \<open>registry_inv\<close> is the invariant of a run.
\<close>

definition pointers_ok :: "'ev traceEventDecoderMap \<Rightarrow> bool" where
  "pointers_ok m = (case active m of None \<Rightarrow> True | Some a \<Rightarrow> a < nextAddr m)"

definition mirrors :: "'ev decoderMap \<Rightarrow> (string \<rightharpoonup> 16 word \<times> 'ev traceEventDecoder) \<Rightarrow> bool" where
  "mirrors dm r =
     ((\<forall>n. names dm n = map_option fst (r n)) \<and>
      (\<forall>i d. (decoders dm i = Some d) = (\<exists>n. r n = Some (i, d))))"

definition consistent_set :: "(string \<times> 16 word) set \<Rightarrow> bool" where
  "consistent_set P = (\<forall>n i n' i'. (n, i) \<in> P \<and> (n', i') \<in> P \<longrightarrow> (n = n') = (i = i'))"

definition registry_inv :: "string \<Rightarrow> (string \<times> 16 word) set \<Rightarrow> 'ev traceEventDecoderMap
    \<Rightarrow> (string \<rightharpoonup> 16 word \<times> 'ev traceEventDecoder) \<Rightarrow> bool" where
  "registry_inv dir P m r =
     (pointers_ok m \<and> tracingDir m = dir \<and>
      (\<forall>b<nextAddr m. bijection (heap m b)) \<and>
      (case active m of None \<Rightarrow> r = Map.empty | Some a \<Rightarrow> mirrors (heap m a) r) \<and>
      (\<forall>n i d. r n = Some (i, d) \<longrightarrow> (n, i) \<in> P))"

subsection \<open>Event stamping and dispatch\<close>

text \<open>The event id the specification describes: the hex SHA-256 of the sensor id's
  bytes, the sequence number and the monotime, both little-endian on 8 bytes.\<close>

definition claimed_event_id :: "string \<Rightarrow> 64 word \<Rightarrow> 64 word \<Rightarrow> string" where
  "claimed_event_id sid seq monotime =
     EncodeToString (Sum256 (map of_char sid @ le_bytes 8 seq @ le_bytes 8 monotime))"

text \<open>A subscription the event is sent to: it has a channel, and its filter, if any,
  evaluates without error to true.\<close>

definition eligible :: "'o EventMonitorSample \<Rightarrow> 'o subscription \<Rightarrow> bool" where
  "eligible sample s =
     (data' s \<noteq> None \<and>
      (case filter' s of
         None \<Rightarrow> True
       | Some f \<Rightarrow> (case f sample of Inl err \<Rightarrow> False | Inr v \<Rightarrow> v)))"

text \<open>The channels the event is sent to, in the order of the iteration: one entry for
  each subscription the event is sent to.\<close>

definition targets :: "'o EventMonitorSample \<Rightarrow> (64 word \<times> 64 word \<times> 'o subscription) list \<Rightarrow> nat list" where
  "targets sample eventMap =
     concat (map (\<lambda>(eventID, subscriptionID, s).
                    if eligible sample s then (case data' s of None \<Rightarrow> [] | Some ch \<Rightarrow> [ch]) else [])
                 eventMap)"

text \<open>
  The channels after the sends \<open>sent\<close>: each channel holds, behind what it held, one
  copy of the event for each time it occurs in \<open>sent\<close>, and nothing else has changed.
  The send to \<open>ch\<close> that comes after the sends \<open>sent\<close> can proceed when the channel is
  open and still has room. \<open>first_stop\<close> is the position of the first send that cannot
  proceed.
\<close>

definition delivered :: "nat list \<Rightarrow> 'e \<Rightarrow> (nat \<Rightarrow> 'e chan) \<Rightarrow> (nat \<Rightarrow> 'e chan)" where
  "delivered sent event chans =
     (\<lambda>ch. (chans ch)\<lparr>buf := buf (chans ch) @ replicate (count_list sent ch) event\<rparr>)"

definition has_room :: "(nat \<Rightarrow> 'e chan) \<Rightarrow> nat list \<Rightarrow> nat \<Rightarrow> bool" where
  "has_room chans sent ch =
     (\<not> closed (chans ch) \<and> length (buf (chans ch)) + count_list sent ch < capacity (chans ch))"

definition first_stop :: "(nat \<Rightarrow> 'e chan) \<Rightarrow> nat list \<Rightarrow> nat option" where
  "first_stop chans ts = find (\<lambda>k. \<not> has_room chans (take k ts) (ts ! k)) [0..<length ts]"


subsection \<open>Example inputs\<close>

text \<open>A payload with the event type 0x42 in its first 8 bytes, a \<open>u32\<close> at offset 8,
  a \<open>u16\<close> at offset 12, a \<open>__data_loc\<close> word at offset 16 that points at the 4
  bytes \<open>cat\<close>, NUL at offset 20, two \<open>i16\<close> at offset 24, and a \<open>__data_loc\<close>
  word at offset 28 that points at 3 bytes at offset 32; and the five field descriptors.\<close>

definition pid_field :: traceEventField where
  "pid_field = \<lparr>FieldName = ''pid'', Offset = 8, dataType = TraceEventFieldTypeUnsignedInt32,
     dataTypeSize = 4, dataLocSize = 0, arraySize = 0\<rparr>"

definition cpu_field :: traceEventField where
  "cpu_field = \<lparr>FieldName = ''cpu'', Offset = 12, dataType = TraceEventFieldTypeUnsignedInt16,
     dataTypeSize = 2, dataLocSize = 0, arraySize = 0\<rparr>"

definition comm_field :: traceEventField where
  "comm_field = \<lparr>FieldName = ''comm'', Offset = 16, dataType = TraceEventFieldTypeString,
     dataTypeSize = 1, dataLocSize = 4, arraySize = 0\<rparr>"

definition sample_payload :: bslice where
  "sample_payload = \<lparr>elems =
       [0x42, 0, 0, 0, 0, 0, 0, 0, 7, 0, 0, 0, 3, 0, 0, 0, 20, 0, 4, 0, 99, 97, 116, 0,
        1, 0, 255, 255, 32, 0, 3, 0, 9, 8, 7],
     spare = []\<rparr>"

definition prio_field :: traceEventField where
  "prio_field = \<lparr>FieldName = ''prio'', Offset = 24, dataType = TraceEventFieldTypeSignedInt16,
     dataTypeSize = 2, dataLocSize = 0, arraySize = 2\<rparr>"

definition data_field :: traceEventField where
  "data_field = \<lparr>FieldName = ''data'', Offset = 28, dataType = TraceEventFieldTypeUnsignedInt8,
     dataTypeSize = 1, dataLocSize = 4, arraySize = 0\<rparr>"

text \<open>A payload of 8 bytes, one of 12, and the first 22 bytes of the payload above
  (the string region, 4 bytes at offset 20, reaches beyond its end); a \<open>u32\<close> field
  and a string field whose offset is 100; a string field in a scalar slot at offset 0; a dynamic \<open>u8\<close> array whose
  \<open>__data_loc\<close> word (offset 1000, length 0) points outside the payload.\<close>

definition short_payload :: bslice where
  "short_payload = \<lparr>elems = [0x42, 0, 0, 0, 0, 0, 0, 0], spare = []\<rparr>"

definition cut_payload :: bslice where
  "cut_payload = \<lparr>elems = [0x42, 0, 0, 0, 0, 0, 0, 0, 7, 0, 0, 0, 3, 0, 0, 0, 20, 0, 4, 0, 99, 97],
     spare = []\<rparr>"

definition far_field :: traceEventField where
  "far_field = \<lparr>FieldName = ''pid'', Offset = 100, dataType = TraceEventFieldTypeUnsignedInt32,
     dataTypeSize = 4, dataLocSize = 0, arraySize = 0\<rparr>"

definition name_field :: traceEventField where
  "name_field = \<lparr>FieldName = ''name'', Offset = 0, dataType = TraceEventFieldTypeString,
     dataTypeSize = 1, dataLocSize = 0, arraySize = 0\<rparr>"

definition far_name_field :: traceEventField where
  "far_name_field = \<lparr>FieldName = ''name'', Offset = 100, dataType = TraceEventFieldTypeString,
     dataTypeSize = 1, dataLocSize = 0, arraySize = 0\<rparr>"

definition buf_field :: traceEventField where
  "buf_field = \<lparr>FieldName = ''buf'', Offset = 8, dataType = TraceEventFieldTypeUnsignedInt8,
     dataTypeSize = 1, dataLocSize = 4, arraySize = 0\<rparr>"

definition far_loc_payload :: bslice where
  "far_loc_payload = \<lparr>elems = [0x42, 0, 0, 0, 0, 0, 0, 0, 232, 3, 0, 0], spare = []\<rparr>"



definition big_name_field :: traceEventField where
  "big_name_field = \<lparr>FieldName = ''name'', Offset = 0, dataType = TraceEventFieldTypeString,
     dataTypeSize = 1, dataLocSize = 0, arraySize = 17592186044417\<rparr>"

text \<open>Registries: a post-decoder that returns nothing, three states of tracefs (\<open>a\<close> has
  id 1 and \<open>b\<close> id 2; every name has id 1; \<open>a\<close> and \<open>c\<close> have id 1 and \<open>b\<close> has
  id 2), an empty registry, three runs (in the last, \<open>c\<close> is registered with the id of
  \<open>a\<close> after \<open>a\<close> has been removed), and two samples (3 bytes, 12 bytes).\<close>

definition fn0 :: "unit TraceEventDecoderFn" where
  "fn0 = (\<lambda>sample data. (None, None))"

definition fs_ab :: tracefs where
  "fs_ab = (\<lambda>dir name. if name = ''a'' then Inr (1, []) else if name = ''b'' then Inr (2, [])
     else Inl (OtherError ''no such event''))"

definition fs_same :: tracefs where
  "fs_same = (\<lambda>dir name. Inr (1, []))"

definition m0 :: "unit traceEventDecoderMap" where
  "m0 = newTraceEventDecoderMap ''/sys/kernel/debug/tracing''"

definition ops_ab :: "unit registry_op list" where
  "ops_ab = [OpAdd fs_ab ''a'' fn0, OpAdd fs_ab ''b'' fn0, OpRemove ''a'']"

definition ops_same :: "unit registry_op list" where
  "ops_same = [OpAdd fs_same ''a'' fn0, OpAdd fs_same ''b'' fn0, OpRemove ''a'']"

definition fs_abc :: tracefs where
  "fs_abc = (\<lambda>dir name. if name = ''a'' \<or> name = ''c'' then Inr (1, [])
     else if name = ''b'' then Inr (2, [])
     else Inl (OtherError ''no such event''))"

definition ops_reuse :: "unit registry_op list" where
  "ops_reuse = [OpAdd fs_abc ''a'' fn0, OpAdd fs_abc ''b'' fn0, OpRemove ''a'',
     OpAdd fs_abc ''c'' fn0]"

definition short_sample :: SampleRecord where
  "short_sample = \<lparr>RawData = \<lparr>elems = [0x42, 0, 0], spare = []\<rparr>, Time = 0, CPU = 0\<rparr>"

definition sample0 :: SampleRecord where
  "sample0 = \<lparr>RawData = \<lparr>elems = [0x42, 0, 0, 0, 0, 0, 0, 0, 7, 0, 0, 0], spare = []\<rparr>, Time = 0, CPU = 0\<rparr>"

text \<open>A sensor whose id is 64 times the character \<open>a\<close>, started at clock reading
  \<open>1000000000\<close>, and a process cache that knows no process.\<close>

definition sensor_aa :: Sensor where
  "sensor_aa = NewSensor (replicate 32 170) 1000000000"

definition no_cache :: ProcessInfoCache where
  "no_cache = \<lparr>ProcessID = (\<lambda>pid. None), ProcessContainerID = (\<lambda>pid. None)\<rparr>"


text \<open>Dispatch: an event, a sample that carries it, two subscribers without filter on
  the channels 0 and 1; open channels of capacity 2, channel 0 full and the others
  empty; and the subscribers in both orders.\<close>

definition event0 :: TelemetryEvent where
  "event0 = \<lparr>Id' = ''e0'', SensorId = ''s0'', SensorMonotimeNanos = 500, SensorSequenceNumber = 1,
     ProcessPid = 7, Cpu = 0, ProcessId = [], ContainerId = [], ContainerName = [], ImageId = [],
     ImageName = []\<rparr>"

definition sample_ev :: "unit EventMonitorSample" where
  "sample_ev = \<lparr>Err' = None, DecodedSample = Telemetry (Some event0), DecodedData = Map.empty\<rparr>"

definition sub_x :: "unit subscription" where
  "sub_x = \<lparr>data' = Some 0, filter' = None\<rparr>"

definition sub_y :: "unit subscription" where
  "sub_y = \<lparr>data' = Some 1, filter' = None\<rparr>"

definition chans_xy :: "nat \<Rightarrow> TelemetryEvent chan" where
  "chans_xy = (\<lambda>ch. \<lparr>buf = [], capacity = 2, closed = False\<rparr>)
     (0 := \<lparr>buf = [event0, event0], capacity = 2, closed = False\<rparr>)"

definition eventMap_xy :: "(64 word \<times> 64 word \<times> unit subscription) list" where
  "eventMap_xy = [(1, 1, sub_x), (1, 2, sub_y)]"

definition eventMap_yx :: "(64 word \<times> 64 word \<times> unit subscription) list" where
  "eventMap_yx = [(1, 2, sub_y), (1, 1, sub_x)]"

text \<open>The same channels after the teardown of the subscriber of channel 1 has closed it.\<close>

definition chans_closed :: "nat \<Rightarrow> TelemetryEvent chan" where
  "chans_closed = chans_xy(1 := \<lparr>buf = [], capacity = 2, closed = True\<rparr>)"

section \<open>Little-endian words\<close>



lemma le_word_of_nat: "(le_word bs :: 'a::len word) = of_nat (le_nat bs)"
proof (induction bs)
  case Nil
  show ?case by simp
next
  case (Cons b bs)
  have "(ucast b :: 'a word) AND push_bit 8 (le_word bs) = 0"
    by (rule bit_word_eqI) (auto simp: bit_simps dest: bit_imp_le_length)
  then have "(ucast b :: 'a word) OR push_bit 8 (le_word bs) = ucast b + push_bit 8 (le_word bs)"
    by (simp add: disjunctive_add_eq_or)
  then show ?case
    by (simp add: Cons.IH push_bit_eq_mult)
qed

lemma Uint16_eq: "Uint16 b = (case elems b of b0 # b1 # r \<Rightarrow> Inr (le_word [b0, b1]) | _ \<Rightarrow> Inl (Panic IndexOutOfRange))"
  by (simp add: Uint16_def split: list.splits)

lemma Uint32_eq: "Uint32 b = (case elems b of b0 # b1 # b2 # b3 # r \<Rightarrow> Inr (le_word [b0, b1, b2, b3]) | _ \<Rightarrow> Inl (Panic IndexOutOfRange))"
  by (simp add: Uint32_def ac_simps split: list.splits)

lemma Uint64_eq: "Uint64 b = (case elems b of b0 # b1 # b2 # b3 # b4 # b5 # b6 # b7 # r \<Rightarrow> Inr (le_word [b0, b1, b2, b3, b4, b5, b6, b7]) | _ \<Rightarrow> Inl (Panic IndexOutOfRange))"
  by (simp add: Uint64_def ac_simps split: list.splits)




lemma length_le_bytes [simp]: "length (le_bytes n w) = n"
  by (induction n arbitrary: w) simp_all






lemmas type_consts = TraceEventFieldTypeString_def TraceEventFieldTypeSignedInt8_def
  TraceEventFieldTypeSignedInt16_def TraceEventFieldTypeSignedInt32_def
  TraceEventFieldTypeSignedInt64_def TraceEventFieldTypeUnsignedInt8_def
  TraceEventFieldTypeUnsignedInt16_def TraceEventFieldTypeUnsignedInt32_def
  TraceEventFieldTypeUnsignedInt64_def

section \<open>Decoding what was laid out\<close>














lemma width_String [simp]: "width TraceEventFieldTypeString = 0"
  by (simp add: width_def type_consts)








section \<open>Errors and panics of the decoder\<close>

lemma Uint16_cases: "Uint16 b = (if length (elems b) < 2 then Inl (Panic IndexOutOfRange) else Inr (le_word (take 2 (elems b))))"
  by (simp add: Uint16_eq split: list.splits)

lemma Uint32_cases: "Uint32 b = (if length (elems b) < 4 then Inl (Panic IndexOutOfRange) else Inr (le_word (take 4 (elems b))))"
  by (simp add: Uint32_eq split: list.splits)

lemma Uint64_cases: "Uint64 b = (if length (elems b) < 8 then Inl (Panic IndexOutOfRange) else Inr (le_word (take 8 (elems b))))"
  by (simp add: Uint64_eq split: list.splits)

lemma width_cases:
  "width dt = 0 \<or> dt = TraceEventFieldTypeSignedInt8 \<or> dt = TraceEventFieldTypeUnsignedInt8 \<or>
   dt = TraceEventFieldTypeSignedInt16 \<or> dt = TraceEventFieldTypeUnsignedInt16 \<or>
   dt = TraceEventFieldTypeSignedInt32 \<or> dt = TraceEventFieldTypeUnsignedInt32 \<or>
   dt = TraceEventFieldTypeSignedInt64 \<or> dt = TraceEventFieldTypeUnsignedInt64"
  by (simp add: width_def)

lemma decodeDataType_no_width:
  "width dt = 0 \<Longrightarrow> decodeDataType dt b =
     Inl (Err (if dt = TraceEventFieldTypeString then UnexpectedString else UndefinedDataType))"
  by (simp add: decodeDataType_def width_def split: if_splits)

lemma decodeDataType_width:
  assumes "0 < width dt"
  shows "(int (length (elems b)) < width dt \<longrightarrow> decodeDataType dt b = Inl (Panic IndexOutOfRange)) \<and>
         (width dt \<le> int (length (elems b)) \<longrightarrow> (\<exists>v. decodeDataType dt b = Inr v))"
  using assms width_cases [of dt]
  by (elim disjE)
     (simp_all add: decodeDataType_def width_def type_consts index_at_def Uint16_cases
        Uint32_cases Uint64_cases)

lemma decodeDataType_Err: "decodeDataType dt b = Inl (Err e) \<Longrightarrow> type_fault dt e"
proof (cases "width dt = 0")
  case True
  assume "decodeDataType dt b = Inl (Err e)"
  with True show ?thesis
    by (auto simp: decodeDataType_no_width type_fault_def split: if_splits)
next
  case False
  then have "0 < width dt"
    by (simp add: width_def split: if_splits)
  from decodeDataType_width [OF this, of b]
  have "decodeDataType dt b = Inl (Panic IndexOutOfRange) \<or> (\<exists>v. decodeDataType dt b = Inr v)"
    by (cases "int (length (elems b)) < width dt") auto
  moreover assume "decodeDataType dt b = Inl (Err e)"
  ultimately show ?thesis by auto
qed

lemma slice_from_Err: "slice_from b lo \<noteq> Inl (Err e)"
  by (simp add: slice_from_def)

lemma decodeElements_Err:
  "decodeElements dt sz raw off n = Inl (Err e) \<Longrightarrow> type_fault dt e"
proof (induction n arbitrary: off)
  case 0
  then show ?case by simp
next
  case (Suc n)
  then show ?case
    by (auto simp: slice_from_Err split: sum.splits dest: decodeDataType_Err)
qed

lemma decodeArray_Err: "decodeArray dt sz raw off n = Inl (Err e) \<Longrightarrow> type_fault dt e"
  by (auto simp: decodeArray_def split: if_splits sum.splits dest: decodeElements_Err)

lemma Uint16_Err: "Uint16 b \<noteq> Inl (Err e)"
  by (simp add: Uint16_cases)

lemma Uint32_Err: "Uint32 b \<noteq> Inl (Err e)"
  by (simp add: Uint32_cases)

lemma dataLoc_Err:
  "dataLoc f raw = Inl (Err e) \<Longrightarrow>
     dataLocSize f \<noteq> 4 \<and> dataLocSize f \<noteq> 8 \<and> e = DataLocSize (dataLocSize f)"
  by (auto simp: dataLoc_def slice_from_Err Uint16_Err Uint32_Err split: if_splits sum.splits)

lemma decodeString_Err: "decodeString raw off len \<noteq> Inl (Err e)"
  by (auto simp: decodeString_def index_at_def slice_between_def split: if_splits sum.splits)

lemma go_div_Err: "go_div a b \<noteq> Inl (Err e)"
  by (simp add: go_div_def)

lemma decodeField_Err: "decodeField f raw = Inl (Err e) \<Longrightarrow> schema_fault f e"
proof (cases "dataLocSize f > 0")
  case True
  assume err: "decodeField f raw = Inl (Err e)"
  show ?thesis
  proof (cases "dataLoc f raw")
    case (Inl x)
    with err True have "dataLoc f raw = Inl (Err e)"
      by (simp add: decodeField_def)
    then show ?thesis
      using True by (auto simp: schema_fault_def dest: dataLoc_Err)
  next
    case (Inr loc)
    then have four: "dataLocSize f = 4 \<or> dataLocSize f = 8"
      by (auto simp: dataLoc_def split: if_splits)
    obtain off len where loc: "loc = (off, len)"
      by (cases loc)
    show ?thesis
    proof (cases "dataType f = TraceEventFieldTypeString")
      case True
      with err \<open>dataLocSize f > 0\<close> Inr loc show ?thesis
        by (simp add: decodeField_def decodeString_Err)
    next
      case False
      with err \<open>dataLocSize f > 0\<close> Inr loc
      have "\<exists>n. decodeArray (dataType f) (dataTypeSize f) raw off n = Inl (Err e)"
        by (auto simp: decodeField_def go_div_Err split: sum.splits)
      then have "type_fault (dataType f) e"
        by (auto dest: decodeArray_Err)
      with False four \<open>dataLocSize f > 0\<close> show ?thesis
        by (simp add: schema_fault_def)
    qed
  qed
next
  case False
  assume err: "decodeField f raw = Inl (Err e)"
  with False have "type_fault (dataType f) e"
    by (auto simp: decodeField_def slice_from_Err split: if_splits sum.splits
        dest: decodeDataType_Err decodeArray_Err)
  with False show ?thesis
    by (simp add: schema_fault_def)
qed

lemma decodeFields_Inl:
  "decodeFields flds raw d = Inl e \<Longrightarrow> \<exists>f\<in>set flds. decodeField f raw = Inl e"
  by (induction flds arbitrary: d) (auto split: sum.splits)

lemma decodeFields_Inr:
  "decodeFields flds raw d = Inr r \<Longrightarrow> \<forall>f\<in>set flds. \<exists>v. decodeField f raw = Inr v"
  by (induction flds arbitrary: d) (auto split: sum.splits)

lemma fault_free_no_fault: "fault_free f \<Longrightarrow> \<not> schema_fault f e"
  by (auto simp: fault_free_def schema_fault_def type_fault_def split: if_splits)

lemma slice_from_cases:
  "slice_from b lo =
     (if lo < 0 \<or> int (length (elems b)) < lo then Inl (Panic SliceBoundsOutOfRange)
      else Inr \<lparr>elems = drop (nat lo) (elems b), spare = spare b\<rparr>)"
  by (simp add: slice_from_def)

lemma int_nat_diff: "\<not> off < 0 \<Longrightarrow> \<not> int n < off \<Longrightarrow> int (n - nat off) = int n - off"
  by arith

lemma decodeElements_outside:
  assumes "0 < width dt"
  shows "0 < n \<Longrightarrow> off < 0 \<or> int (length (elems raw)) < off + int n * width dt \<Longrightarrow>
         \<exists>p. decodeElements dt (width dt) raw off n = Inl (Panic p)"
proof (induction n arbitrary: off)
  case 0
  then show ?case by simp
next
  case (Suc n)
  show ?case
  proof (cases "off < 0 \<or> int (length (elems raw)) < off")
    case True
    then show ?thesis
      by (simp add: slice_from_cases)
  next
    case False
    then have sl: "slice_from raw off = Inr \<lparr>elems = drop (nat off) (elems raw), spare = spare raw\<rparr>"
      by (simp add: slice_from_cases)
    let ?b = "\<lparr>elems = drop (nat off) (elems raw), spare = spare raw\<rparr>"
    have lb: "int (length (elems ?b)) = int (length (elems raw)) - off"
      using False by (simp add: int_nat_diff)
    show ?thesis
    proof (cases "int (length (elems ?b)) < width dt")
      case True
      with decodeDataType_width [OF assms, of ?b]
      have "decodeDataType dt ?b = Inl (Panic IndexOutOfRange)"
        by simp
      then show ?thesis
        by (simp add: sl)
    next
      case enough: False
      with decodeDataType_width [OF assms, of ?b]
      obtain v where v: "decodeDataType dt ?b = Inr v"
        by auto
      from Suc.prems(2) False have out: "int (length (elems raw)) < off + (int n + 1) * width dt"
        by (simp add: algebra_simps)
      from enough have "\<not> int (length (elems raw)) - off < width dt"
        unfolding lb .
      then have "off + width dt \<le> int (length (elems raw))"
        by linarith
      with out have "0 < int n * width dt"
        by (simp add: algebra_simps)
      with assms have npos: "0 < n"
        by (cases n) simp_all
      from out have "off + width dt < 0 \<or> int (length (elems raw)) < (off + width dt) + int n * width dt"
        by (simp add: algebra_simps)
      from Suc.IH [OF npos this] obtain p
        where "decodeElements dt (width dt) raw (off + width dt) n = Inl (Panic p)"
        by blast
      then show ?thesis
        by (simp add: sl v)
    qed
  qed
qed

lemma dataLoc_outside:
  assumes "dataLocSize f = 4 \<or> dataLocSize f = 8"
    and "Offset f < 0 \<or> int (length (elems raw)) < Offset f + dataLocSize f"
  shows "\<exists>p. dataLoc f raw = Inl (Panic p)"
  using assms
  by (auto simp: dataLoc_def slice_from_cases Uint16_cases Uint32_cases)

lemma decodeField_outside:
  assumes "fault_free f" and "reads_outside f (elems raw)"
  shows "\<exists>p. decodeField f raw = Inl (Panic p)"
proof (cases "dataLocSize f > 0")
  case True
  with assms have "dataLocSize f = 4 \<or> dataLocSize f = 8"
    and "Offset f < 0 \<or> int (length (elems raw)) < Offset f + dataLocSize f"
    by (simp_all add: fault_free_def reads_outside_def)
  then obtain p where "dataLoc f raw = Inl (Panic p)"
    using dataLoc_outside by blast
  with True show ?thesis
    by (simp add: decodeField_def)
next
  case False
  with assms(1) have w: "0 < width (dataType f)"
    by (simp add: fault_free_def)
  show ?thesis
  proof (cases "arraySize f = 0")
    case True
    with False assms(2) have out: "Offset f < 0 \<or> int (length (elems raw)) < Offset f + width (dataType f)"
      by (simp add: reads_outside_def)
    show ?thesis
    proof (cases "Offset f < 0 \<or> int (length (elems raw)) < Offset f")
      case True
      with False \<open>arraySize f = 0\<close> show ?thesis
        by (simp add: decodeField_def slice_from_cases)
    next
      case inside: False
      let ?b = "\<lparr>elems = drop (nat (Offset f)) (elems raw), spare = spare raw\<rparr>"
      from inside out have "int (length (elems ?b)) < width (dataType f)"
        by (simp add: int_nat_diff)
      with decodeDataType_width [OF w, of ?b]
      have "decodeDataType (dataType f) ?b = Inl (Panic IndexOutOfRange)"
        by simp
      with False \<open>arraySize f = 0\<close> inside show ?thesis
        by (simp add: decodeField_def slice_from_cases)
    qed
  next
    case ne: False
    with False assms(2) have pos: "0 < arraySize f" and sz: "dataTypeSize f = width (dataType f)"
      and out: "Offset f < 0 \<or> int (length (elems raw)) < Offset f + arraySize f * width (dataType f)"
      by (simp_all add: reads_outside_def)
    from pos have npos: "0 < nat (arraySize f)"
      by simp
    from out pos have "Offset f < 0 \<or> int (length (elems raw)) < Offset f + int (nat (arraySize f)) * width (dataType f)"
      by simp
    from decodeElements_outside [OF w npos this] obtain p
      where "decodeElements (dataType f) (width (dataType f)) raw (Offset f) (nat (arraySize f)) = Inl (Panic p)"
      by blast
    with False ne pos sz show ?thesis
      by (cases "maxAlloc < 16 * arraySize f") (simp_all add: decodeField_def decodeArray_def)
  qed
qed


lemma dataLoc_nonneg: "dataLoc f raw = Inr (off, len) \<Longrightarrow> 0 \<le> off \<and> 0 \<le> len"
  by (auto simp: dataLoc_def split: if_splits sum.splits)

lemma go_div_nonneg: "0 \<le> a \<Longrightarrow> 0 < b \<Longrightarrow> go_div a b = Inr (a div b)"
  by (cases "a = 0") (simp_all add: go_div_def sgn_if)

lemma decodeField_region_outside:
  assumes "region_outside f raw"
  shows "\<exists>p. decodeField f raw = Inl (Panic p)"
proof -
  from assms have pos: "0 < dataLocSize f"
    by (simp add: region_outside_def)
  from assms obtain off len where loc: "dataLoc f raw = Inr (off, len)"
    by (auto simp: region_outside_def split: sum.splits)
  from dataLoc_nonneg [OF loc] have off0: "0 \<le> off" and len0: "0 \<le> len"
    by simp_all
  show ?thesis
  proof (cases "dataType f = TraceEventFieldTypeString")
    case True
    with assms loc have l: "0 < len" and out: "int (length (elems raw)) < off + len"
      by (simp_all add: region_outside_def)
    then have "index_at raw (off + len - 1) = Inl (Panic IndexOutOfRange)"
      by (simp add: index_at_def)
    with l have "decodeString raw off len = Inl (Panic IndexOutOfRange)"
      by (simp add: decodeString_def)
    with pos loc True show ?thesis
      by (simp add: decodeField_def)
  next
    case False
    with assms loc have sz: "dataTypeSize f = width (dataType f)" and w: "0 < width (dataType f)"
      and one: "width (dataType f) \<le> len"
      and out: "int (length (elems raw)) < off + (len div width (dataType f)) * width (dataType f)"
      by (simp_all add: region_outside_def)
    let ?n = "len div width (dataType f)"
    have dv: "go_div len (width (dataType f)) = Inr ?n"
      using len0 w by (rule go_div_nonneg)
    from one w have npos: "0 < ?n"
      by (simp add: pos_imp_zdiv_pos_iff)
    then have nn: "0 < nat ?n"
      by simp
    from out npos have "off < 0 \<or> int (length (elems raw)) < off + int (nat ?n) * width (dataType f)"
      by simp
    from decodeElements_outside [OF w nn this] obtain p
      where "decodeElements (dataType f) (width (dataType f)) raw off (nat ?n) = Inl (Panic p)"
      by blast
    with pos loc False sz npos show ?thesis
      by (cases "maxAlloc < 16 * ?n") (simp_all add: decodeField_def dv decodeArray_def)
  qed
qed

lemma maxAlloc_pos: "0 < maxAlloc"
  by (simp add: maxAlloc_def)

lemma decodeField_string_slot:
  assumes "dataType f = TraceEventFieldTypeString" and "dataLocSize f \<le> 0"
  shows "decodeField f raw =
     (if arraySize f < 0 \<or> maxAlloc < 16 * arraySize f
      then Inl (Panic MakeSliceLenOutOfRange)
      else if Offset f < 0 \<or> int (length (elems raw)) < Offset f
      then Inl (Panic SliceBoundsOutOfRange) else Inl (Err UnexpectedString))"
proof (cases "arraySize f = 0")
  case True
  with assms maxAlloc_pos show ?thesis
    by (simp add: decodeField_def slice_from_cases decodeDataType_def)
next
  case False
  show ?thesis
  proof (cases "arraySize f < 0 \<or> maxAlloc < 16 * arraySize f")
    case True
    with assms False show ?thesis
      by (simp add: decodeField_def decodeArray_def)
  next
    case fits: False
    with False obtain n where n: "nat (arraySize f) = Suc n"
      by (cases "nat (arraySize f)") auto
    with assms False fits show ?thesis
      by (simp add: decodeField_def decodeArray_def slice_from_cases decodeDataType_def)
  qed
qed

lemma decodeField_string_slot_fails:
  assumes "dataType f = TraceEventFieldTypeString" and "dataLocSize f \<le> 0"
  shows "\<exists>e. decodeField f raw = Inl e"
  using decodeField_string_slot [OF assms, of raw] by (auto split: if_splits)


lemmas example_defs = pid_field_def cpu_field_def comm_field_def prio_field_def
  data_field_def sample_payload_def


lemmas more_example_defs = short_payload_def far_field_def name_field_def far_name_field_def
  buf_field_def far_loc_payload_def

lemmas decode_defs = decodeRawData_def decodeField_def dataLoc_def decodeString_def
  decodeArray_def maxAlloc_def decodeDataType_def slice_from_def slice_between_def index_at_def
  Uint16_def Uint32_def Uint64_def go_div_def type_consts

section \<open>Claims about the decoder\<close>




text \<open>
  Claim C3, as stated, fails: \<open>decodeRawData\<close> checks no bound. A \<open>u32\<close> field at
  offset 100 of an 8-byte payload makes the slice expression \<open>rawData[field.Offset:]\<close>
  panic; no error is returned. And a dynamic array whose \<open>__data_loc\<close> word gives
  offset 1000 and length 0 in a 12-byte payload decodes to the empty array, without
  error and without panic.
\<close>

theorem decodeRawData_out_of_range_counterexample:
  "decodeRawData [far_field] short_payload = Inl (Panic SliceBoundsOutOfRange) \<and>
   decodeRawData [buf_field] far_loc_payload = Inr [''buf'' \<mapsto> VArray []]"
  by (simp add: more_example_defs decode_defs)

text \<open>
  Claim C3, amended. An error returned by \<open>decodeRawData\<close> always comes from the schema
  alone (\<open>schema_fault\<close>: a string or an undefined data type where an integer is
  decoded, or a \<open>__data_loc\<close> size that is neither 4 nor 8), never from a bound. When
  no field of the schema has such a fault and the bytes the decoder reads for some field
  reach outside the payload (\<open>reads_outside\<close>: its scalar, its fixed array or its
  \<open>__data_loc\<close> word; \<open>region_outside\<close>: a dynamic string of at least one byte, or
  the elements of a dynamic array of at least one element), \<open>decodeRawData\<close> returns
  neither an error nor a field map: it ends in a run-time panic. Which panic it is
  depends on the field the iteration fails at: the slice-bounds or index panic of a
  read outside the payload, or the panic of another field that the iteration reaches
  first (a division by a zero element size, an array that \<open>make\<close> refuses).
\<close>

theorem decodeRawData_errors:
  "(decodeRawData flds raw = Inl (Err e) \<longrightarrow> (\<exists>f\<in>set flds. schema_fault f e)) \<and>
   (list_all fault_free flds \<and>
    (\<exists>f\<in>set flds. reads_outside f (elems raw) \<or> region_outside f raw) \<longrightarrow>
      (\<exists>p. decodeRawData flds raw = Inl (Panic p)))"
proof (intro conjI impI)
  assume "decodeRawData flds raw = Inl (Err e)"
  then obtain f where "f \<in> set flds" and "decodeField f raw = Inl (Err e)"
    by (auto simp: decodeRawData_def dest: decodeFields_Inl)
  then show "\<exists>f\<in>set flds. schema_fault f e"
    by (auto dest: decodeField_Err)
next
  assume a: "list_all fault_free flds \<and>
    (\<exists>f\<in>set flds. reads_outside f (elems raw) \<or> region_outside f raw)"
  then obtain f where f: "f \<in> set flds"
    and out: "reads_outside f (elems raw) \<or> region_outside f raw"
    by blast
  from a f have "fault_free f"
    by (simp add: list_all_iff)
  with out obtain p where p: "decodeField f raw = Inl (Panic p)"
    using decodeField_outside decodeField_region_outside by blast
  show "\<exists>p. decodeRawData flds raw = Inl (Panic p)"
  proof (cases "decodeRawData flds raw")
    case (Inr r)
    with f p show ?thesis
      by (auto simp: decodeRawData_def dest!: decodeFields_Inr)
  next
    case (Inl x)
    then obtain g where g: "g \<in> set flds" and ge: "decodeField g raw = Inl x"
      by (auto simp: decodeRawData_def dest: decodeFields_Inl)
    from a g have ff: "fault_free g"
      by (simp add: list_all_iff)
    show ?thesis
    proof (cases x)
      case (Panic q)
      with Inl show ?thesis by simp
    next
      case (Err e')
      with ge have "schema_fault g e'"
        by (auto dest: decodeField_Err)
      with ff show ?thesis
        by (simp add: fault_free_no_fault)
    qed
  qed
qed

theorem decodeRawData_errors_witness:
  "decodeRawData [name_field] short_payload = Inl (Err UnexpectedString) \<and>
   (\<exists>f\<in>set [name_field]. schema_fault f UnexpectedString) \<and>
   list_all fault_free [far_field] \<and> reads_outside far_field (elems short_payload) \<and>
   decodeRawData [far_field] short_payload = Inl (Panic SliceBoundsOutOfRange) \<and>
   list_all fault_free [pid_field, comm_field] \<and> region_outside comm_field cut_payload \<and>
   decodeRawData [pid_field, comm_field] cut_payload = Inl (Panic IndexOutOfRange)"
proof -
  have a: "decodeRawData [name_field] short_payload = Inl (Err UnexpectedString)"
    by (simp add: more_example_defs decode_defs)
  have b: "list_all fault_free [far_field] \<and> reads_outside far_field (elems short_payload)"
    by (simp add: more_example_defs fault_free_def reads_outside_def width_def type_consts)
  have b': "list_all fault_free [pid_field, comm_field] \<and> region_outside comm_field cut_payload"
    by (simp add: example_defs cut_payload_def fault_free_def region_outside_def width_def
        dataLoc_def slice_from_def Uint16_def type_consts)
  from decodeRawData_errors [of "[name_field]" short_payload UnexpectedString] a
  have c: "\<exists>f\<in>set [name_field]. schema_fault f UnexpectedString"
    by blast
  from decodeRawData_errors [of "[far_field]" short_payload] b
  obtain p where "decodeRawData [far_field] short_payload = Inl (Panic p)"
    by auto
  then have d: "decodeRawData [far_field] short_payload = Inl (Panic SliceBoundsOutOfRange)"
    by (simp add: more_example_defs decode_defs)
  from decodeRawData_errors [of "[pid_field, comm_field]" cut_payload] b'
  obtain q where "decodeRawData [pid_field, comm_field] cut_payload = Inl (Panic q)"
    by auto
  then have d': "decodeRawData [pid_field, comm_field] cut_payload = Inl (Panic IndexOutOfRange)"
    by (simp add: example_defs cut_payload_def decode_defs)
  from a b b' c d d' show ?thesis
    by blast
qed

text \<open>
  Claim C9, as stated, fails when the string field's offset lies outside the payload:
  the slice expression panics before \<open>decodeDataType\<close> can return its error. It
  also fails for a fixed-array slot whose size \<open>make\<close> refuses (here \<open>2^44 + 1\<close>
  elements): \<open>make\<close> panics before the first element is decoded.
\<close>

theorem string_slot_counterexample:
  "decodeRawData [far_name_field] short_payload = Inl (Panic SliceBoundsOutOfRange) \<and>
   decodeRawData [big_name_field] short_payload = Inl (Panic MakeSliceLenOutOfRange)"
  by (simp add: more_example_defs big_name_field_def decode_defs)

text \<open>
  Claim C9, amended. When a field of the schema has the data type string and is not
  dynamic, \<open>decodeRawData\<close> never returns a field map. When moreover the other fields
  decode, the result is: the panic of \<open>make\<close> if the field's array size is negative
  or above \<open>maxAlloc / 16\<close>; otherwise the slice-bounds panic if the field's offset lies
  outside the payload; otherwise (\<open>0 \<le> offset \<le> length\<close>) the error
  \<open>UnexpectedString\<close>.
\<close>

theorem string_slot_fails:
  assumes "f \<in> set flds" and "dataType f = TraceEventFieldTypeString" and "dataLocSize f \<le> 0"
  shows "(\<exists>e. decodeRawData flds raw = Inl e) \<and>
         ((\<exists>d. decodeRawData (removeAll f flds) raw = Inr d) \<longrightarrow>
            decodeRawData flds raw =
              (if arraySize f < 0 \<or> maxAlloc < 16 * arraySize f
               then Inl (Panic MakeSliceLenOutOfRange)
               else if Offset f < 0 \<or> int (length (elems raw)) < Offset f
               then Inl (Panic SliceBoundsOutOfRange) else Inl (Err UnexpectedString)))"
proof (intro conjI impI)
  from decodeField_string_slot_fails [OF assms(2,3)] obtain e0 where e0: "decodeField f raw = Inl e0"
    by blast
  show fails: "\<exists>e. decodeRawData flds raw = Inl e"
  proof (cases "decodeRawData flds raw")
    case (Inl e)
    then show ?thesis by simp
  next
    case (Inr r)
    with assms(1) e0 show ?thesis
      by (auto simp: decodeRawData_def dest!: decodeFields_Inr)
  qed
  assume a: "\<exists>d. decodeRawData (removeAll f flds) raw = Inr d"
  then have others: "\<forall>g\<in>set flds. g \<noteq> f \<longrightarrow> (\<exists>v. decodeField g raw = Inr v)"
    by (auto simp: decodeRawData_def dest!: decodeFields_Inr)
  from fails obtain e where e: "decodeRawData flds raw = Inl e"
    by blast
  then obtain g where g: "g \<in> set flds" and ge: "decodeField g raw = Inl e"
    by (auto simp: decodeRawData_def dest: decodeFields_Inl)
  with others have "g = f"
    by auto
  with ge have fe: "decodeField f raw = Inl e"
    by simp
  from decodeField_string_slot [OF assms(2,3), of raw]
  show "decodeRawData flds raw =
      (if arraySize f < 0 \<or> maxAlloc < 16 * arraySize f
       then Inl (Panic MakeSliceLenOutOfRange)
       else if Offset f < 0 \<or> int (length (elems raw)) < Offset f
       then Inl (Panic SliceBoundsOutOfRange) else Inl (Err UnexpectedString))"
    unfolding e fe by (auto split: if_splits)
qed

theorem string_slot_fails_witness:
  "name_field \<in> set [pid_field, name_field] \<and>
   dataType name_field = TraceEventFieldTypeString \<and> dataLocSize name_field \<le> 0 \<and>
   decodeRawData (removeAll name_field [pid_field, name_field]) sample_payload =
     Inr [''pid'' \<mapsto> VUint32 7] \<and>
   decodeRawData [pid_field, name_field] sample_payload = Inl (Err UnexpectedString)"
proof -
  have h1: "name_field \<in> set [pid_field, name_field]"
    by simp
  have h2: "dataType name_field = TraceEventFieldTypeString"
    by (simp add: name_field_def)
  have h3: "dataLocSize name_field \<le> 0"
    by (simp add: name_field_def)
  have ne: "pid_field \<noteq> name_field"
    by (simp add: name_field_def pid_field_def)
  have h5: "decodeRawData (removeAll name_field [pid_field, name_field]) sample_payload =
     Inr [''pid'' \<mapsto> VUint32 7]"
    using ne by (simp add: example_defs decode_defs)
  have off: "\<not> (Offset name_field < 0 \<or> int (length (elems sample_payload)) < Offset name_field)"
    by (simp add: name_field_def sample_payload_def)
  have sz: "\<not> (arraySize name_field < 0 \<or> maxAlloc < 16 * arraySize name_field)"
    by (simp add: name_field_def maxAlloc_def)
  from string_slot_fails [OF h1 h2 h3, of sample_payload] h5 off sz
  have "decodeRawData [pid_field, name_field] sample_payload = Inl (Err UnexpectedString)"
    by simp
  with h1 h2 h3 h5 show ?thesis
    by blast
qed
section \<open>The registry\<close>

lemma ucast_le_word: "(ucast (le_word bs :: 64 word) :: 16 word) = of_nat (le_nat bs)"
proof -
  have "(ucast (of_nat (le_nat bs) :: 64 word) :: 16 word) = of_nat (take_bit 64 (le_nat bs))"
    by (simp add: unsigned_of_nat)
  also have "\<dots> = of_nat (le_nat bs)"
    by (simp add: word_of_nat_eq_iff min_def)
  finally show ?thesis
    by (simp add: le_word_of_nat)
qed

lemma lo16_le_u64_eq: "lo16_le_u64 raw = of_nat (le_nat (take 8 raw))"
  by (simp add: lo16_le_u64_def word_of_nat_eq_iff take_bit_eq_mod)

lemma DecodeSample_eventType:
  assumes "8 \<le> length (elems (RawData sample))"
  shows "DecodeSample m sample =
     (case getDecoder m (lo16_le_u64 (elems (RawData sample))) of
        None \<Rightarrow> Inr (None, None, None)
      | Some decoder \<Rightarrow>
          (case decodeRawData (fields' decoder) (RawData sample) of
             Inl (Panic p) \<Rightarrow> Inl p
           | Inl (Err e) \<Rightarrow> Inr (None, None, Some e)
           | Inr data \<Rightarrow>
               (case decoderfn decoder sample data of
                  (decodedSample, err) \<Rightarrow> Inr (Some data, decodedSample, err))))"
  using assms
  by (simp add: DecodeSample_def Uint64_cases ucast_le_word lo16_le_u64_eq)

lemma AddDecoder_heap_old:
  "a < nextAddr m \<Longrightarrow> heap (snd (AddDecoder m fs name fn)) a = heap m a"
  by (auto simp: AddDecoder_def Let_def split: sum.splits prod.splits)

lemma RemoveDecoder_heap_old:
  "a < nextAddr m \<Longrightarrow> heap (RemoveDecoder m name) a = heap m a"
  by (auto simp: RemoveDecoder_def Let_def split: option.splits)

lemma apply_op_heap_old: "a < nextAddr m \<Longrightarrow> heap (apply_op m op) a = heap m a"
  by (cases op) (simp_all add: AddDecoder_heap_old RemoveDecoder_heap_old)

lemma apply_op_nextAddr: "nextAddr m \<le> nextAddr (apply_op m op)"
  by (cases op)
     (auto simp: AddDecoder_def RemoveDecoder_def Let_def split: sum.splits prod.splits option.splits)

lemma apply_op_pointers_ok: "pointers_ok m \<Longrightarrow> pointers_ok (apply_op m op)"
  by (cases op)
     (auto simp: pointers_ok_def AddDecoder_def RemoveDecoder_def getDecoderMap_def Let_def
        split: sum.splits prod.splits option.splits)

lemma foldl_heap_old:
  "pointers_ok m \<Longrightarrow> a < nextAddr m \<Longrightarrow> heap (foldl apply_op m ops) a = heap m a"
proof (induction ops arbitrary: m)
  case Nil
  show ?case by simp
next
  case (Cons op ops)
  have "a < nextAddr (apply_op m op)"
    using Cons.prems(2) apply_op_nextAddr [of m op] by simp
  with Cons show ?case
    by (simp add: apply_op_pointers_ok apply_op_heap_old)
qed

lemma foldl_pointers_ok: "pointers_ok m \<Longrightarrow> pointers_ok (foldl apply_op m ops)"
  by (induction ops arbitrary: m) (simp_all add: apply_op_pointers_ok)

lemma new_pointers_ok: "pointers_ok (newTraceEventDecoderMap dir)"
  by (simp add: pointers_ok_def newTraceEventDecoderMap_def)

lemma mirrors_bijection:
  assumes "mirrors dm r" and "consistent_set P" and "\<forall>n i d. r n = Some (i, d) \<longrightarrow> (n, i) \<in> P"
  shows "bijection dm"
  unfolding bijection_def
proof (intro conjI allI impI)
  fix n i
  assume "names dm n = Some i"
  with assms(1) obtain d where "r n = Some (i, d)"
    by (auto simp: mirrors_def)
  with assms(1) have "decoders dm i = Some d"
    by (auto simp: mirrors_def)
  then show "decoders dm i \<noteq> None"
    by simp
next
  fix i
  assume "decoders dm i \<noteq> None"
  then obtain d where "decoders dm i = Some d"
    by auto
  with assms(1) obtain n where "r n = Some (i, d)"
    by (auto simp: mirrors_def)
  with assms(1) have "names dm n = Some i"
    by (simp add: mirrors_def)
  then show "\<exists>n. names dm n = Some i" ..
next
  fix n n' i
  assume "names dm n = Some i \<and> names dm n' = Some i"
  with assms(1) obtain d d' where "r n = Some (i, d)" and "r n' = Some (i, d')"
    by (auto simp: mirrors_def)
  with assms(3) have "(n, i) \<in> P" and "(n', i) \<in> P"
    by blast+
  with assms(2) show "n = n'"
    unfolding consistent_set_def by blast
qed

lemma mirrors_add:
  assumes m: "mirrors dm r" and c: "consistent_set P"
    and sub: "\<forall>n i d. r n = Some (i, d) \<longrightarrow> (n, i) \<in> P" and new: "(name, i) \<in> P"
  shows "mirrors (add dm name i d) (r(name \<mapsto> (i, d)))"
  unfolding mirrors_def
proof (intro conjI allI)
  fix n
  show "names (add dm name i d) n = map_option fst ((r(name \<mapsto> (i, d))) n)"
    using m by (simp add: add_def mirrors_def)
next
  fix j e
  show "(decoders (add dm name i d) j = Some e) = (\<exists>n. (r(name \<mapsto> (i, d))) n = Some (j, e))"
  proof
    assume a: "decoders (add dm name i d) j = Some e"
    show "\<exists>n. (r(name \<mapsto> (i, d))) n = Some (j, e)"
    proof (cases "j = i")
      case True
      with a have "e = d"
        by (simp add: add_def)
      with True show ?thesis
        by (intro exI [of _ name]) simp
    next
      case False
      with a have "decoders dm j = Some e"
        by (simp add: add_def)
      with m obtain n where n: "r n = Some (j, e)"
        by (auto simp: mirrors_def)
      with sub have "(n, j) \<in> P"
        by blast
      with new c False have "n \<noteq> name"
        unfolding consistent_set_def by blast
      with n show ?thesis
        by (intro exI [of _ n]) simp
    qed
  next
    assume "\<exists>n. (r(name \<mapsto> (i, d))) n = Some (j, e)"
    then obtain n where n: "(r(name \<mapsto> (i, d))) n = Some (j, e)" ..
    show "decoders (add dm name i d) j = Some e"
    proof (cases "n = name")
      case True
      with n show ?thesis
        by (simp add: add_def)
    next
      case False
      with n have rn: "r n = Some (j, e)"
        by simp
      with sub have "(n, j) \<in> P"
        by blast
      with new c False have "j \<noteq> i"
        unfolding consistent_set_def by blast
      moreover from rn m have "decoders dm j = Some e"
        by (auto simp: mirrors_def)
      ultimately show ?thesis
        by (simp add: add_def)
    qed
  qed
qed

lemma mirrors_remove:
  assumes m: "mirrors dm r" and c: "consistent_set P"
    and sub: "\<forall>n i d. r n = Some (i, d) \<longrightarrow> (n, i) \<in> P" and nm: "names dm name = Some i"
  shows "mirrors \<lparr>decoders = (decoders dm)(i := None), names = (names dm)(name := None)\<rparr>
           (r(name := None))"
  unfolding mirrors_def
proof (intro conjI allI)
  fix n
  show "names \<lparr>decoders = (decoders dm)(i := None), names = (names dm)(name := None)\<rparr> n =
        map_option fst ((r(name := None)) n)"
    using m by (simp add: mirrors_def)
next
  from nm m obtain d0 where r0: "r name = Some (i, d0)"
    by (auto simp: mirrors_def)
  with sub have p0: "(name, i) \<in> P"
    by blast
  fix j e
  show "(decoders \<lparr>decoders = (decoders dm)(i := None), names = (names dm)(name := None)\<rparr> j = Some e) =
        (\<exists>n. (r(name := None)) n = Some (j, e))"
  proof
    assume a: "decoders \<lparr>decoders = (decoders dm)(i := None), names = (names dm)(name := None)\<rparr> j = Some e"
    then have ji: "j \<noteq> i" and "decoders dm j = Some e"
      by (auto split: if_splits)
    with m obtain n where n: "r n = Some (j, e)"
      by (auto simp: mirrors_def)
    with sub have "(n, j) \<in> P"
      by blast
    with p0 c ji have "n \<noteq> name"
      unfolding consistent_set_def by blast
    with n show "\<exists>n. (r(name := None)) n = Some (j, e)"
      by (intro exI [of _ n]) simp
  next
    assume "\<exists>n. (r(name := None)) n = Some (j, e)"
    then obtain n where n: "(r(name := None)) n = Some (j, e)" ..
    then have ne: "n \<noteq> name" and rn: "r n = Some (j, e)"
      by (auto split: if_splits)
    with sub have "(n, j) \<in> P"
      by blast
    with p0 c ne have "j \<noteq> i"
      unfolding consistent_set_def by blast
    moreover from rn m have "decoders dm j = Some e"
      by (auto simp: mirrors_def)
    ultimately show "decoders \<lparr>decoders = (decoders dm)(i := None), names = (names dm)(name := None)\<rparr> j = Some e"
      by simp
  qed
qed

lemma mirrors_empty: "mirrors newDecoderMap Map.empty"
  by (simp add: mirrors_def newDecoderMap_def)

lemma mirrors_copy: "mirrors dm r \<Longrightarrow> mirrors \<lparr>decoders = decoders dm, names = names dm\<rparr> r"
  by (simp add: mirrors_def)

lemma registry_inv_AddDecoder:
  assumes inv: "registry_inv dir P m r" and c: "consistent_set P"
    and res: "\<forall>i flds. fs dir name = Inr (i, flds) \<longrightarrow> (name, i) \<in> P"
  shows "registry_inv dir P (snd (AddDecoder m fs name fn)) (track_op dir r (OpAdd fs name fn))"
proof (cases "fs dir name")
  case (Inl err)
  with inv show ?thesis
    by (simp add: AddDecoder_def newTraceEventDecoder_def registry_inv_def)
next
  case (Inr p)
  obtain i flds where p: "p = (i, flds)"
    by (cases p)
  let ?d = "\<lparr>fields' = flds, decoderfn = fn\<rparr>"
  let ?copied = "case getDecoderMap m of None \<Rightarrow> newDecoderMap
    | Some a \<Rightarrow> \<lparr>decoders = decoders (heap m a), names = names (heap m a)\<rparr>"
  from inv have dir: "tracingDir m = dir" and ok: "pointers_ok m"
    and bij: "\<forall>b<nextAddr m. bijection (heap m b)"
    and act: "case active m of None \<Rightarrow> r = Map.empty | Some a \<Rightarrow> mirrors (heap m a) r"
    and sub: "\<forall>n i d. r n = Some (i, d) \<longrightarrow> (n, i) \<in> P"
    by (simp_all add: registry_inv_def)
  from res Inr p have new: "(name, i) \<in> P"
    by simp
  have cm: "mirrors ?copied r"
    using act by (auto simp: getDecoderMap_def mirrors_empty mirrors_copy split: option.splits)
  have m': "snd (AddDecoder m fs name fn) =
      m\<lparr>heap := (heap m)(nextAddr m := add ?copied name i ?d), nextAddr := Suc (nextAddr m),
        active := Some (nextAddr m)\<rparr>"
    using Inr p dir by (simp add: AddDecoder_def newTraceEventDecoder_def Let_def)
  have r': "track_op dir r (OpAdd fs name fn) = r(name \<mapsto> (i, ?d))"
    using Inr p by (simp add: newTraceEventDecoder_def)
  have mir: "mirrors (add ?copied name i ?d) (r(name \<mapsto> (i, ?d)))"
    using cm c sub new by (rule mirrors_add)
  have sub': "\<forall>n j d. (r(name \<mapsto> (i, ?d))) n = Some (j, d) \<longrightarrow> (n, j) \<in> P"
    using sub new by auto
  have bnew: "bijection (add ?copied name i ?d)"
    using mir c sub' by (rule mirrors_bijection)
  show ?thesis
    unfolding m' r' registry_inv_def
    using dir bij mir sub' bnew
    by (auto simp: pointers_ok_def less_Suc_eq)
qed

lemma registry_inv_RemoveDecoder:
  assumes inv: "registry_inv dir P m r" and c: "consistent_set P"
  shows "registry_inv dir P (RemoveDecoder m name) (track_op dir r (OpRemove name))"
proof (cases "active m")
  case None
  with inv show ?thesis
    by (simp add: RemoveDecoder_def getDecoderMap_def registry_inv_def)
next
  case (Some a)
  from inv Some have dir: "tracingDir m = dir" and ok: "pointers_ok m"
    and bij: "\<forall>b<nextAddr m. bijection (heap m b)"
    and mir: "mirrors (heap m a) r"
    and sub: "\<forall>n i d. r n = Some (i, d) \<longrightarrow> (n, i) \<in> P"
    by (simp_all add: registry_inv_def)
  show ?thesis
  proof (cases "names (heap m a) name")
    case None
    with mir have "r name = None"
      by (simp add: mirrors_def)
    then have "r(name := None) = r"
      by (simp add: fun_upd_idem)
    with inv Some None show ?thesis
      by (simp add: RemoveDecoder_def getDecoderMap_def)
  next
    case (Some i)
    let ?ndm = "\<lparr>decoders = (decoders (heap m a))(i := None), names = (names (heap m a))(name := None)\<rparr>"
    have m': "RemoveDecoder m name =
        m\<lparr>heap := (heap m)(nextAddr m := ?ndm), nextAddr := Suc (nextAddr m),
          active := Some (nextAddr m)\<rparr>"
      using \<open>active m = Some a\<close> Some by (simp add: RemoveDecoder_def getDecoderMap_def Let_def)
    have mir': "mirrors ?ndm (r(name := None))"
      using mir c sub Some by (rule mirrors_remove)
    have sub': "\<forall>n j d. (r(name := None)) n = Some (j, d) \<longrightarrow> (n, j) \<in> P"
      using sub by auto
    have bnew: "bijection ?ndm"
      using mir' c sub' by (rule mirrors_bijection)
    show ?thesis
      unfolding m' registry_inv_def track_op.simps
      using dir bij mir' sub' bnew
      by (auto simp: pointers_ok_def less_Suc_eq)
  qed
qed

lemma registry_inv_mono: "registry_inv dir P m r \<Longrightarrow> P \<subseteq> Q \<Longrightarrow> registry_inv dir Q m r"
  unfolding registry_inv_def by blast

lemma consistent_set_insert:
  assumes "consistent_set (set regd)" and "list_all (\<lambda>(n, j). (n = name) = (j = i)) regd"
  shows "consistent_set (set ((name, i) # regd))"
  using assms unfolding consistent_set_def list_all_iff by auto

lemma consistent_set_filter: "consistent_set (set regd) \<Longrightarrow> consistent_set (set (filter p regd))"
  unfolding consistent_set_def by auto

lemma registry_inv_foldl:
  "registry_inv dir (set regd) m r \<Longrightarrow> consistent_set (set regd) \<Longrightarrow> ids_apart dir regd ops \<Longrightarrow>
   \<exists>regd'. registry_inv dir (set regd') (foldl apply_op m ops) (foldl (track_op dir) r ops)"
proof (induction ops arbitrary: m r regd)
  case Nil
  then show ?case by auto
next
  case (Cons op ops)
  show ?case
  proof (cases op)
    case (OpAdd fs name fn)
    show ?thesis
    proof (cases "fs dir name")
      case (Inl err)
      with Cons.prems(3) OpAdd have rest: "ids_apart dir regd ops"
        by simp
      from Inl have res: "\<forall>i flds. fs dir name = Inr (i, flds) \<longrightarrow> (name, i) \<in> set regd"
        by simp
      have "registry_inv dir (set regd) (apply_op m op) (track_op dir r op)"
        unfolding OpAdd apply_op.simps
        using Cons.prems(1) Cons.prems(2) res by (rule registry_inv_AddDecoder)
      from Cons.IH [OF this Cons.prems(2) rest] show ?thesis
        by simp
    next
      case (Inr p)
      obtain i flds where p: "p = (i, flds)"
        by (cases p)
      let ?regd = "(name, i) # regd"
      from Cons.prems(3) OpAdd Inr p
      have la: "list_all (\<lambda>(n, j). (n = name) = (j = i)) regd" and rest: "ids_apart dir ?regd ops"
        by simp_all
      have c: "consistent_set (set ?regd)"
        using Cons.prems(2) la by (rule consistent_set_insert)
      have inv: "registry_inv dir (set ?regd) m r"
        using Cons.prems(1) by (rule registry_inv_mono) auto
      from Inr p have res: "\<forall>j flds. fs dir name = Inr (j, flds) \<longrightarrow> (name, j) \<in> set ?regd"
        by simp
      have "registry_inv dir (set ?regd) (apply_op m op) (track_op dir r op)"
        unfolding OpAdd apply_op.simps using inv c res by (rule registry_inv_AddDecoder)
      from Cons.IH [OF this c rest] show ?thesis
        by simp
    qed
  next
    case (OpRemove name)
    let ?regd = "filter (\<lambda>(n, i). n \<noteq> name) regd"
    from Cons.prems(3) OpRemove have rest: "ids_apart dir ?regd ops"
      by simp
    have c: "consistent_set (set ?regd)"
      using Cons.prems(2) by (rule consistent_set_filter)
    have inv: "registry_inv dir (set regd) (RemoveDecoder m name) (r(name := None))"
      using registry_inv_RemoveDecoder [OF Cons.prems(1) Cons.prems(2), of name] by simp
    then have "\<forall>n i d. (r(name := None)) n = Some (i, d) \<longrightarrow> (n, i) \<in> set ?regd"
      unfolding registry_inv_def by (auto split: if_splits)
    with inv have "registry_inv dir (set ?regd) (RemoveDecoder m name) (r(name := None))"
      unfolding registry_inv_def by simp
    then have "registry_inv dir (set ?regd) (apply_op m op) (track_op dir r op)"
      unfolding OpRemove by simp
    from Cons.IH [OF this c rest] show ?thesis
      by simp
  qed
qed

lemma registry_inv_new: "registry_inv dir P (newTraceEventDecoderMap dir) Map.empty"
  by (simp add: registry_inv_def newTraceEventDecoderMap_def pointers_ok_def)

lemmas registry_example_defs = fn0_def fs_ab_def fs_same_def fs_abc_def m0_def ops_ab_def
  ops_same_def ops_reuse_def

lemmas registry_defs = run_def AddDecoder_def RemoveDecoder_def addDecoderInPlace_def
  removeDecoderInPlace_def newTraceEventDecoder_def newTraceEventDecoderMap_def
  newDecoderMap_def add_def getDecoderMap_def getDecoder_def Let_def

section \<open>Claims about the registry\<close>

text \<open>
  Claim C7, as stated, fails for a sample whose raw payload is shorter than 8 bytes:
  \<open>binary.LittleEndian.Uint64\<close> panics, and \<open>DecodeSample\<close> returns nothing.
\<close>

theorem DecodeSample_short_counterexample:
  "DecodeSample m0 short_sample = Inl IndexOutOfRange"
  by (simp add: short_sample_def DecodeSample_def Uint64_def)

text \<open>
  Claim C7, amended. For every sample whose raw payload has at least 8 bytes,
  \<open>DecodeSample\<close> looks the decoder up under the low 16 bits of the little-endian
  \<open>u64\<close> in the first 8 bytes (\<open>lo16_le_u64\<close>), and it returns the empty result (no
  field map, no typed event, no error) exactly when no decoder is registered for that id.
\<close>

theorem DecodeSample_no_decoder:
  assumes "8 \<le> length (elems (RawData sample))"
  shows "(DecodeSample m sample = Inr (None, None, None)) =
         (getDecoder m (lo16_le_u64 (elems (RawData sample))) = None)"
  unfolding DecodeSample_eventType [OF assms]
  by (auto split: option.splits sum.splits error.splits prod.splits)

theorem DecodeSample_no_decoder_witness:
  "8 \<le> length (elems (RawData sample0)) \<and>
   lo16_le_u64 (elems (RawData sample0)) = 66 \<and>
   getDecoder m0 (lo16_le_u64 (elems (RawData sample0))) = None \<and>
   DecodeSample m0 sample0 = Inr (None, None, None)"
proof -
  have h: "8 \<le> length (elems (RawData sample0))"
    by (simp add: sample0_def)
  have i: "lo16_le_u64 (elems (RawData sample0)) = 66"
    by (simp add: sample0_def lo16_le_u64_def)
  have g: "getDecoder m0 (lo16_le_u64 (elems (RawData sample0))) = None"
    by (simp add: m0_def getDecoder_def getDecoderMap_def newTraceEventDecoderMap_def)
  from DecodeSample_no_decoder [OF h, of m0] g
  have "DecodeSample m0 sample0 = Inr (None, None, None)"
    by simp
  with h i g show ?thesis
    by simp
qed

text \<open>
  Claim C5, as stated, fails: the registry takes the id of a name from the schema loader
  and checks nothing. When the loader answers two names with the same id and both are
  registered, removing one name removes the decoder of the other: after \<open>a\<close> and \<open>b\<close>
  have been added with id 1 and \<open>a\<close> has been removed, \<open>by_name[b] = 1\<close> and there is
  no \<open>by_id[1]\<close>.
\<close>

theorem registry_bijection_counterexample:
  "active (run ops_same m0) = Some 2 \<and>
   names (heap (run ops_same m0) 2) ''b'' = Some 1 \<and>
   decoders (heap (run ops_same m0) 2) 1 = None \<and>
   \<not> bijection (heap (run ops_same m0) 2)"
proof -
  have a: "active (run ops_same m0) = Some 2"
    by (simp add: registry_example_defs registry_defs)
  have n: "names (heap (run ops_same m0) 2) ''b'' = Some 1"
    by (simp add: registry_example_defs registry_defs)
  have d: "decoders (heap (run ops_same m0) 2) 1 = None"
    by (simp add: registry_example_defs registry_defs)
  from n d have b: "\<not> bijection (heap (run ops_same m0) 2)"
    unfolding bijection_def by blast
  from a n d b show ?thesis
    by blast
qed

text \<open>
  Claim C5, amended. Let the run keep the ids of the registered names apart
  (\<open>ids_apart\<close>): at each \<open>AddDecoder\<close> for which the schema loader answers, the id
  is not at that moment the id of another registered name, and it is the id the name
  is registered with if the name is registered. Then every snapshot published by the
  sequence of \<open>AddDecoder\<close> and \<open>RemoveDecoder\<close> calls on a new registry has its two
  maps in bijection, and the current snapshot mirrors what is registered:
  \<open>by_name[n] = id\<close> exactly when \<open>n\<close> is registered with \<open>id\<close>, and \<open>by_id[id]\<close> is
  the decoder registered under that name. Names that are never registered at the same
  time may share an id, and a name that has been removed may come back with another id.
\<close>

theorem registry_bijection:
  assumes "ids_apart dir [] ops"
  shows "(\<forall>b<nextAddr (run ops (newTraceEventDecoderMap dir)).
            bijection (heap (run ops (newTraceEventDecoderMap dir)) b)) \<and>
         (\<forall>a. active (run ops (newTraceEventDecoderMap dir)) = Some a \<longrightarrow>
            mirrors (heap (run ops (newTraceEventDecoderMap dir)) a) (registered dir ops))"
proof -
  have c: "consistent_set (set ([] :: (string \<times> 16 word) list))"
    by (simp add: consistent_set_def)
  have "\<exists>regd'. registry_inv dir (set regd') (run ops (newTraceEventDecoderMap dir))
      (registered dir ops)"
    unfolding run_def registered_def
    using registry_inv_new c assms by (rule registry_inv_foldl)
  then show ?thesis
    by (auto simp: registry_inv_def)
qed

theorem registry_bijection_witness:
  "ids_apart (tracingDir m0) [] ops_reuse \<and>
   active (run ops_reuse m0) = Some 3 \<and> bijection (heap (run ops_reuse m0) 3) \<and>
   bijection (heap (run ops_reuse m0) 1) \<and>
   mirrors (heap (run ops_reuse m0) 3) (registered (tracingDir m0) ops_reuse) \<and>
   names (heap (run ops_reuse m0) 1) ''a'' = Some 1 \<and>
   names (heap (run ops_reuse m0) 3) ''a'' = None \<and>
   names (heap (run ops_reuse m0) 3) ''b'' = Some 2 \<and>
   names (heap (run ops_reuse m0) 3) ''c'' = Some 1"
proof -
  have h: "ids_apart ''/sys/kernel/debug/tracing'' [] ops_reuse"
    by (simp add: ops_reuse_def fs_abc_def)
  have a: "active (run ops_reuse m0) = Some 3"
    by (simp add: registry_example_defs registry_defs)
  have k: "nextAddr (run ops_reuse m0) = 4"
    by (simp add: registry_example_defs registry_defs)
  have n: "names (heap (run ops_reuse m0) 1) ''a'' = Some 1 \<and>
      names (heap (run ops_reuse m0) 3) ''a'' = None \<and>
      names (heap (run ops_reuse m0) 3) ''b'' = Some 2 \<and>
      names (heap (run ops_reuse m0) 3) ''c'' = Some 1"
    by (simp add: registry_example_defs registry_defs)
  have t: "tracingDir m0 = ''/sys/kernel/debug/tracing''"
    by (simp add: m0_def newTraceEventDecoderMap_def)
  from registry_bijection [OF h] a k
  have "bijection (heap (run ops_reuse m0) 3) \<and> bijection (heap (run ops_reuse m0) 1) \<and>
      mirrors (heap (run ops_reuse m0) 3) (registered ''/sys/kernel/debug/tracing'' ops_reuse)"
    unfolding m0_def by auto
  with h a n t show ?thesis
    by simp
qed

text \<open>
  Claim C6, as stated, fails: \<open>addDecoderInPlace\<close> and \<open>removeDecoderInPlace\<close> write
  into the published snapshot. After \<open>AddDecoder\<close> has published the snapshot at
  address 0, the first adds the name \<open>b\<close> to it and the second removes the name \<open>a\<close>
  from it.
\<close>

theorem snapshot_mutated_in_place_counterexample:
  "active (run [OpAdd fs_ab ''a'' fn0] m0) = Some 0 \<and>
   names (heap (run [OpAdd fs_ab ''a'' fn0] m0) 0) ''b'' = None \<and>
   names (heap (snd (addDecoderInPlace (run [OpAdd fs_ab ''a'' fn0] m0) fs_ab ''b'' fn0)) 0) ''b'' = Some 2 \<and>
   names (heap (run [OpAdd fs_ab ''a'' fn0] m0) 0) ''a'' = Some 1 \<and>
   names (heap (removeDecoderInPlace (run [OpAdd fs_ab ''a'' fn0] m0) ''a'') 0) ''a'' = None"
  by (simp add: registry_example_defs registry_defs)

text \<open>
  Claim C6, amended. \<open>AddDecoder\<close> and \<open>RemoveDecoder\<close> never mutate a published
  snapshot: a snapshot that a reader has loaded after any run of the two on a new
  registry keeps its content through every further run of the two. (The in-place
  variants do mutate it.)
\<close>

theorem snapshot_never_mutated:
  assumes "active (run ops1 (newTraceEventDecoderMap dir)) = Some a"
  shows "heap (run ops2 (run ops1 (newTraceEventDecoderMap dir))) a =
         heap (run ops1 (newTraceEventDecoderMap dir)) a"
proof -
  let ?m1 = "run ops1 (newTraceEventDecoderMap dir)"
  have ok: "pointers_ok ?m1"
    by (simp add: run_def foldl_pointers_ok new_pointers_ok)
  with assms have "a < nextAddr ?m1"
    by (simp add: pointers_ok_def)
  with ok show ?thesis
    by (simp add: run_def foldl_heap_old)
qed

theorem snapshot_never_mutated_witness:
  "active (run [OpAdd fs_ab ''a'' fn0] m0) = Some 0 \<and>
   heap (run [OpAdd fs_ab ''b'' fn0, OpRemove ''a''] (run [OpAdd fs_ab ''a'' fn0] m0)) 0 =
   heap (run [OpAdd fs_ab ''a'' fn0] m0) 0 \<and>
   active (run [OpAdd fs_ab ''b'' fn0, OpRemove ''a''] (run [OpAdd fs_ab ''a'' fn0] m0)) = Some 2"
proof -
  have a: "active (run [OpAdd fs_ab ''a'' fn0] (newTraceEventDecoderMap ''/sys/kernel/debug/tracing'' :: unit traceEventDecoderMap)) = Some 0"
    by (simp add: registry_example_defs registry_defs)
  have b: "active (run [OpAdd fs_ab ''b'' fn0, OpRemove ''a''] (run [OpAdd fs_ab ''a'' fn0] m0)) = Some 2"
    by (simp add: registry_example_defs registry_defs)
  from snapshot_never_mutated [OF a, of "[OpAdd fs_ab ''b'' fn0, OpRemove ''a'']"] a b
  show ?thesis
    by (simp add: m0_def)
qed

section \<open>Claims about the sensor\<close>

lemma NewEvent_fields:
  "SensorSequenceNumber (fst (NewEvent s clock)) = sequenceNumber s + 1 \<and>
   sequenceNumber (snd (NewEvent s clock)) = sequenceNumber s + 1 \<and>
   ID (snd (NewEvent s clock)) = ID s \<and>
   bootMonotimeNanos (snd (NewEvent s clock)) = bootMonotimeNanos s"
  by (simp add: NewEvent_def nextSequenceNumber_def Let_def)

lemma NewEvents_sequence:
  "map SensorSequenceNumber (NewEvents s clocks) =
   map (\<lambda>k. sequenceNumber s + of_nat k) [1..<Suc (length clocks)]"
proof (induction clocks arbitrary: s)
  case Nil
  show ?case by simp
next
  case (Cons clock clocks)
  obtain e s' where ev: "NewEvent s clock = (e, s')"
    by (cases "NewEvent s clock")
  with NewEvent_fields [of s clock]
  have e: "SensorSequenceNumber e = sequenceNumber s + 1" and s': "sequenceNumber s' = sequenceNumber s + 1"
    by simp_all
  have "[1..<Suc (Suc (length clocks))] = 1 # map Suc [1..<Suc (length clocks)]"
    by (simp add: upt_conv_Cons map_Suc_upt del: upt_Suc)
  then have "map (\<lambda>k. sequenceNumber s + of_nat k) [1..<Suc (length (clock # clocks))] =
      (sequenceNumber s + 1) # map (\<lambda>k. sequenceNumber s + 1 + of_nat k) [1..<Suc (length clocks)]"
    by (simp add: comp_def add.assoc del: upt_Suc)
  then show ?case
    using ev e s' Cons.IH [of s'] by (simp del: upt_Suc)
qed

lemma length_NewEvents [simp]: "length (NewEvents s clocks) = length clocks"
  by (induction clocks arbitrary: s) (auto split: prod.splits)

lemma last_map_upt: "0 < n \<Longrightarrow> last (map g [1..<Suc n]) = g n"
  by simp

lemma NewEvent_Id:
  "Id' (fst (NewEvent s clock)) =
     EncodeToString (Sum256 (PutUint64 (sequenceNumber s + 1) @ PutUint64 (clock - bootMonotimeNanos s)))"
  by (simp add: NewEvent_def nextSequenceNumber_def currentMonotimeNanos_def binary_Write_def Let_def)

text \<open>
  Claim C4, as stated, fails at the wrap-around of the \<open>uint64\<close> counter: the event of
  the \<open>2 ^ 64\<close>-th call of \<open>NewEvent\<close> on a new sensor carries the sequence number 0.
\<close>

theorem sequence_number_wraps_counterexample:
  "SensorSequenceNumber (last (NewEvents (NewSensor (replicate 32 0) 0) (replicate (2 ^ 64) 0))) = 0"
proof -
  let ?cs = "replicate (2 ^ 64) (0 :: 64 word)"
  let ?s = "NewSensor (replicate 32 0) 0"
  have ne: "NewEvents ?s ?cs \<noteq> []"
    by (metis length_NewEvents length_replicate list.size(3) zero_neq_numeral power_not_zero)
  have "SensorSequenceNumber (last (NewEvents ?s ?cs)) = last (map SensorSequenceNumber (NewEvents ?s ?cs))"
    using ne by (simp add: last_map)
  also have "\<dots> = last (map (\<lambda>k. sequenceNumber ?s + of_nat k) [1..<Suc (length ?cs)])"
    by (simp only: NewEvents_sequence)
  also have "\<dots> = sequenceNumber ?s + of_nat (length ?cs)"
    by (rule last_map_upt) simp
  also have "\<dots> = 0"
    by (simp add: NewSensor_def)
  finally show ?thesis .
qed

text \<open>
  Claim C4, amended. The events of the first \<open>n\<close> calls of \<open>NewEvent\<close> on a new sensor,
  for any \<open>n < 2 ^ 64\<close>, carry the sequence numbers \<open>1, 2, ..., n\<close> in this order: the
  first is 1, each is one greater than the one before, and none is 0.
\<close>

theorem sequence_numbers:
  assumes "length clocks < 2 ^ 64"
  shows "map (unat \<circ> SensorSequenceNumber) (NewEvents (NewSensor randomBytes boot) clocks) =
         [1..<Suc (length clocks)]"
proof -
  have "map (unat \<circ> SensorSequenceNumber) (NewEvents (NewSensor randomBytes boot) clocks) =
      map unat (map SensorSequenceNumber (NewEvents (NewSensor randomBytes boot) clocks))"
    by simp
  also have "\<dots> = map (\<lambda>k. unat (of_nat k :: 64 word)) [1..<Suc (length clocks)]"
    by (simp only: NewEvents_sequence) (simp add: NewSensor_def comp_def del: upt_Suc)
  also have "\<dots> = map (\<lambda>k. k) [1..<Suc (length clocks)]"
  proof (rule map_cong [OF refl])
    fix k
    assume "k \<in> set [1..<Suc (length clocks)]"
    then have "k < 2 ^ 64"
      using assms by (auto simp del: upt_Suc)
    then show "unat (of_nat k :: 64 word) = k"
      by (simp add: unat_of_nat take_bit_nat_eq_self)
  qed
  finally show ?thesis
    by simp
qed

theorem sequence_numbers_witness:
  "length [5, 6, 7 :: 64 word] < 2 ^ 64 \<and>
   map (unat \<circ> SensorSequenceNumber) (NewEvents (NewSensor (replicate 32 170) 1000000000) [5, 6, 7]) =
   [1, 2, 3]"
proof -
  have h: "length [5, 6, 7 :: 64 word] < 2 ^ 64"
    by simp
  from sequence_numbers [OF h, of "replicate 32 170" 1000000000] h show ?thesis
    by (simp add: upt_rec)
qed

text \<open>
  Claim C1: the code hashes 16 bytes, not 80. \<open>binary.Write\<close> rejects the string
  \<open>s.ID\<close> and writes nothing, and \<open>NewEvent\<close> drops the error, so the event id is the
  hex SHA-256 of the sequence number and the monotime alone. For the sensor with id
  \<open>aa...a\<close>, sequence number 1 and monotime 500, the event id of \<open>NewEvent\<close> and the id
  the claim describes are the two values below.
\<close>

lemma NewEvent_id_values:
  "SensorSequenceNumber (fst (NewEvent sensor_aa 1000000500)) = 1 \<and>
   SensorMonotimeNanos (fst (NewEvent sensor_aa 1000000500)) = 500 \<and>
   ID sensor_aa = ''aaaaaaaaaaaaaaaaaaaaaaaaaaaaaaaaaaaaaaaaaaaaaaaaaaaaaaaaaaaaaaaa'' \<and>
   Id' (fst (NewEvent sensor_aa 1000000500)) =
     ''7caa04034c80ac61d251babec4bf83cde9f2942c4cbbf3272efc7532fc1159a3'' \<and>
   claimed_event_id (ID sensor_aa) 1 500 =
     ''a35595e46f9a72ae8207311243b805066a2e7050f43159b94ecb0d8450524c11''"
  by code_simp

text \<open>
  Claim C1, at this input: the event id of \<open>NewEvent\<close> is not the id the claim
  describes.
\<close>

theorem NewEvent_id_omits_sensor_id:
  "Id' (fst (NewEvent sensor_aa 1000000500)) =
     ''7caa04034c80ac61d251babec4bf83cde9f2942c4cbbf3272efc7532fc1159a3'' \<and>
   claimed_event_id (ID sensor_aa)
       (SensorSequenceNumber (fst (NewEvent sensor_aa 1000000500)))
       (SensorMonotimeNanos (fst (NewEvent sensor_aa 1000000500))) =
     ''a35595e46f9a72ae8207311243b805066a2e7050f43159b94ecb0d8450524c11'' \<and>
   Id' (fst (NewEvent sensor_aa 1000000500)) \<noteq>
     claimed_event_id (ID sensor_aa)
       (SensorSequenceNumber (fst (NewEvent sensor_aa 1000000500)))
       (SensorMonotimeNanos (fst (NewEvent sensor_aa 1000000500)))"
proof -
  from NewEvent_id_values
  have a: "SensorSequenceNumber (fst (NewEvent sensor_aa 1000000500)) = 1"
    and b: "SensorMonotimeNanos (fst (NewEvent sensor_aa 1000000500)) = 500"
    and c: "Id' (fst (NewEvent sensor_aa 1000000500)) =
      ''7caa04034c80ac61d251babec4bf83cde9f2942c4cbbf3272efc7532fc1159a3''"
    and d: "claimed_event_id (ID sensor_aa) 1 500 =
      ''a35595e46f9a72ae8207311243b805066a2e7050f43159b94ecb0d8450524c11''"
    by blast+
  show ?thesis
    unfolding a b c d by simp
qed

text \<open>
  Claim C10. \<open>NewEventFromSample\<close> panics on the unchecked type assertion whenever the
  field map does not hold an \<open>int32\<close> under the key \<open>common_pid\<close> (the key is missing,
  or its value has another type), after \<open>NewEvent\<close> has consumed a sequence number;
  when the map holds an \<open>int32\<close> there, it returns an event whose pid is that value.
\<close>

theorem NewEventFromSample_common_pid:
  "((\<forall>pid. data ''common_pid'' \<noteq> Some (VInt32 pid)) \<longrightarrow>
      NewEventFromSample s clock processCache GetInfo sample data =
        (Inl InterfaceConversion, snd (NewEvent s clock))) \<and>
   (\<forall>pid. data ''common_pid'' = Some (VInt32 pid) \<longrightarrow>
      (\<exists>e. NewEventFromSample s clock processCache GetInfo sample data =
             (Inr e, snd (NewEvent s clock)) \<and> ProcessPid e = pid))"
proof (intro conjI allI impI)
  assume a: "\<forall>pid. data ''common_pid'' \<noteq> Some (VInt32 pid)"
  show "NewEventFromSample s clock processCache GetInfo sample data =
      (Inl InterfaceConversion, snd (NewEvent s clock))"
  proof (cases "data ''common_pid''")
    case None
    then show ?thesis
      by (simp add: NewEventFromSample_def split: prod.splits)
  next
    case (Some v)
    with a show ?thesis
      by (cases v) (simp_all add: NewEventFromSample_def split: prod.splits)
  qed
next
  fix pid
  assume "data ''common_pid'' = Some (VInt32 pid)"
  then show "\<exists>e. NewEventFromSample s clock processCache GetInfo sample data =
      (Inr e, snd (NewEvent s clock)) \<and> ProcessPid e = pid"
    by (simp add: NewEventFromSample_def Let_def split: prod.splits option.splits)
qed

theorem NewEventFromSample_common_pid_witness:
  "NewEventFromSample sensor_aa 1000000500 no_cache (\<lambda>c. None) sample0 Map.empty =
     (Inl InterfaceConversion, snd (NewEvent sensor_aa 1000000500)) \<and>
   NewEventFromSample sensor_aa 1000000500 no_cache (\<lambda>c. None) sample0 [''common_pid'' \<mapsto> VUint32 7] =
     (Inl InterfaceConversion, snd (NewEvent sensor_aa 1000000500)) \<and>
   (\<exists>e. NewEventFromSample sensor_aa 1000000500 no_cache (\<lambda>c. None) sample0 [''common_pid'' \<mapsto> VInt32 7] =
     (Inr e, snd (NewEvent sensor_aa 1000000500)) \<and> ProcessPid e = 7)"
  using NewEventFromSample_common_pid [of Map.empty sensor_aa 1000000500 no_cache "\<lambda>c. None" sample0]
    NewEventFromSample_common_pid [of "[''common_pid'' \<mapsto> VUint32 7]" sensor_aa 1000000500 no_cache "\<lambda>c. None" sample0]
    NewEventFromSample_common_pid [of "[''common_pid'' \<mapsto> VInt32 7]" sensor_aa 1000000500 no_cache "\<lambda>c. None" sample0]
  by simp

section \<open>Claims about dispatch\<close>

lemma delivered_Nil: "delivered [] event chans = chans"
  by (simp add: delivered_def)

lemma delivered_snoc:
  "(delivered sent event chans)
     (t := (delivered sent event chans t)\<lparr>buf := buf (delivered sent event chans t) @ [event]\<rparr>) =
   delivered (sent @ [t]) event chans"
  by (rule ext) (simp add: delivered_def replicate_append_same)

lemma find_map_option: "find P (map f xs) = map_option f (find (\<lambda>x. P (f x)) xs)"
  by (induction xs) simp_all

lemma find_upt_Suc:
  "find P [0..<Suc n] = (if P 0 then Some 0 else map_option Suc (find (\<lambda>k. P (Suc k)) [0..<n]))"
proof -
  have "[0..<Suc n] = 0 # map Suc [0..<n]"
    by (simp only: upt_conv_Cons zero_less_Suc map_Suc_upt)
  then show ?thesis
    by (simp only: find.simps find_map_option)
qed

lemma forEach_send_outcome:
  "targets sample eventMap = ts \<Longrightarrow>
   forEach_send eventMap sample event (delivered sent event chans) =
     (case find (\<lambda>k. \<not> has_room chans (sent @ take k ts) (ts ! k)) [0..<length ts] of
        None \<Rightarrow> Returned (delivered (sent @ ts) event chans)
      | Some k \<Rightarrow>
          if closed (chans (ts ! k))
          then Panicked SendOnClosedChannel (delivered (sent @ take k ts) event chans)
          else Blocked (ts ! k) (delivered (sent @ take k ts) event chans))"
proof (induction eventMap arbitrary: sent ts)
  case Nil
  then have "ts = []"
    by (simp add: targets_def)
  then show ?case
    by simp
next
  case (Cons x rest)
  obtain e i s where x: "x = (e, i, s)"
    by (cases x)
  show ?case
  proof (cases "eligible sample s")
    case False
    with Cons.prems x have ts: "targets sample rest = ts"
      by (simp add: targets_def)
    from False have skip: "forEach_send (x # rest) sample event C = forEach_send rest sample event C" for C
      unfolding x by (auto simp: eligible_def split: option.splits sum.splits)
    show ?thesis
      unfolding skip by (rule Cons.IH [OF ts])
  next
    case True
    then obtain t where t: "data' s = Some t"
      by (auto simp: eligible_def)
    from True have pass: "(case filter' s of None \<Rightarrow> True
        | Some f \<Rightarrow> (case f sample of Inl err \<Rightarrow> False | Inr v \<Rightarrow> v))"
      by (simp add: eligible_def)
    define ts' where "ts' = targets sample rest"
    from Cons.prems x True t have ts: "ts = t # ts'"
      by (simp add: targets_def ts'_def)
    let ?C = "delivered sent event chans"
    have cl: "closed (?C t) = closed (chans t)"
      and cap: "capacity (?C t) = capacity (chans t)"
      and len: "length (buf (?C t)) = length (buf (chans t)) + count_list sent t"
      by (simp_all add: delivered_def)
    have step: "forEach_send (x # rest) sample event ?C =
        (if closed (chans t) then Panicked SendOnClosedChannel ?C
         else if length (buf (chans t)) + count_list sent t < capacity (chans t)
         then forEach_send rest sample event (delivered (sent @ [t]) event chans)
         else Blocked t ?C)"
      unfolding x using t pass by (simp add: chan_send_def cl cap len delivered_snoc)
    have fnd: "find (\<lambda>k. \<not> has_room chans (sent @ take k ts) (ts ! k)) [0..<length ts] =
        (if \<not> has_room chans sent t then Some 0
         else map_option Suc
           (find (\<lambda>k. \<not> has_room chans ((sent @ [t]) @ take k ts') (ts' ! k)) [0..<length ts']))"
      unfolding ts by (simp add: find_upt_Suc del: upt_Suc)
    have IH: "forEach_send rest sample event (delivered (sent @ [t]) event chans) =
        (case find (\<lambda>k. \<not> has_room chans ((sent @ [t]) @ take k ts') (ts' ! k)) [0..<length ts'] of
           None \<Rightarrow> Returned (delivered ((sent @ [t]) @ ts') event chans)
         | Some k \<Rightarrow>
             if closed (chans (ts' ! k))
             then Panicked SendOnClosedChannel (delivered ((sent @ [t]) @ take k ts') event chans)
             else Blocked (ts' ! k) (delivered ((sent @ [t]) @ take k ts') event chans))"
      by (rule Cons.IH) (simp add: ts'_def)
    show ?thesis
      unfolding step fnd IH by (auto simp: has_room_def ts split: option.splits)
  qed
qed

lemmas dispatch_example_defs = sample_ev_def sub_x_def sub_y_def chans_xy_def eventMap_xy_def
  eventMap_yx_def chans_closed_def

text \<open>
  Claim C2, as stated, fails: the send \<open>s.data <- event\<close> is a plain channel send, not
  a \<open>select\<close> with a default case. With subscriber X on the full channel 0 and
  subscriber Y on the empty channel 1, the dispatcher blocks on channel 0, nothing is
  dropped, and Y has not received the event.
\<close>

theorem dispatchSample_blocks_counterexample:
  "dispatchSample eventMap_xy 1 sample_ev chans_xy = Blocked 0 chans_xy \<and>
   buf (chans_xy 1) = []"
  by (simp add: dispatch_example_defs dispatchSample_def chan_send_def)

text \<open>
  Claim C2, amended. For a sample that carries a telemetry event, the dispatcher makes
  the sends in the order of the iteration, one for each subscription that has a channel
  and whose filter is absent or true (\<open>targets\<close>), each a plain channel send. It stops
  at the first send that cannot proceed (\<open>first_stop\<close>): there it blocks on that
  channel if the channel is open and full, the events the dispatcher has itself enqueued
  counted, and it panics if the channel is closed. At that moment every earlier send has
  been made and no later one: each channel holds, behind what it held, one copy of the
  event for each earlier send to it (\<open>delivered\<close>). When every send can proceed,
  \<open>dispatchSample\<close> returns and every channel has received the event once for each of
  these subscriptions. No event is ever dropped.
\<close>

theorem dispatchSample_blocks:
  assumes "DecodedSample sample = Telemetry (Some event)"
  shows "dispatchSample eventMap eventID sample chans =
     (case first_stop chans (targets sample eventMap) of
        None \<Rightarrow> Returned (delivered (targets sample eventMap) event chans)
      | Some k \<Rightarrow>
          if closed (chans (targets sample eventMap ! k))
          then Panicked SendOnClosedChannel
                 (delivered (take k (targets sample eventMap)) event chans)
          else Blocked (targets sample eventMap ! k)
                 (delivered (take k (targets sample eventMap)) event chans))"
proof -
  have call: "dispatchSample eventMap eventID sample chans =
      forEach_send eventMap sample event (delivered [] event chans)"
    using assms by (simp add: dispatchSample_def delivered_Nil)
  show ?thesis
    unfolding call forEach_send_outcome [OF refl] first_stop_def append_Nil
    by (rule refl)
qed

theorem dispatchSample_blocks_witness:
  "DecodedSample sample_ev = Telemetry (Some event0) \<and>
   targets sample_ev eventMap_yx = [1, 0] \<and>
   first_stop chans_xy [1, 0] = Some 1 \<and>
   dispatchSample eventMap_yx 1 sample_ev chans_xy =
     Blocked 0 (chans_xy(1 := \<lparr>buf = [event0], capacity = 2, closed = False\<rparr>)) \<and>
   dispatchSample [(1, 2, sub_y)] 1 sample_ev chans_xy =
     Returned (chans_xy(1 := \<lparr>buf = [event0], capacity = 2, closed = False\<rparr>)) \<and>
   dispatchSample eventMap_yx 1 sample_ev chans_closed =
     Panicked SendOnClosedChannel chans_closed"
proof -
  have d: "DecodedSample sample_ev = Telemetry (Some event0)"
    by (simp add: sample_ev_def)
  have t: "targets sample_ev eventMap_yx = [1, 0]"
    by (simp add: targets_def eligible_def dispatch_example_defs)
  have t1: "targets sample_ev [(1, 2, sub_y)] = [1]"
    by (simp add: targets_def eligible_def dispatch_example_defs)
  have f: "first_stop chans_xy [1, 0] = Some 1"
    by (simp add: first_stop_def has_room_def chans_xy_def upt_conv_Cons)
  have f1: "first_stop chans_xy [1] = None"
    by (simp add: first_stop_def has_room_def chans_xy_def)
  have f2: "first_stop chans_closed [1, 0] = Some 0"
    by (simp add: first_stop_def has_room_def chans_closed_def chans_xy_def upt_conv_Cons)
  have c: "delivered [Suc 0] event0 chans_xy =
      chans_xy(Suc 0 := \<lparr>buf = [event0], capacity = 2, closed = False\<rparr>)"
    by (rule ext) (simp add: delivered_def chans_xy_def)
  have o: "\<not> closed (chans_xy 0)" and o': "closed (chans_closed (Suc 0))"
    by (simp_all add: chans_xy_def chans_closed_def)
  have a: "dispatchSample eventMap_yx 1 sample_ev chans_xy =
      Blocked 0 (chans_xy(1 := \<lparr>buf = [event0], capacity = 2, closed = False\<rparr>))"
    using dispatchSample_blocks [OF d, of eventMap_yx 1 chans_xy, unfolded t f]
    by (simp add: c o)
  have b: "dispatchSample [(1, 2, sub_y)] 1 sample_ev chans_xy =
      Returned (chans_xy(1 := \<lparr>buf = [event0], capacity = 2, closed = False\<rparr>))"
    using dispatchSample_blocks [OF d, of "[(1, 2, sub_y)]" 1 chans_xy, unfolded t1 f1]
    by (simp add: c)
  have p: "dispatchSample eventMap_yx 1 sample_ev chans_closed =
      Panicked SendOnClosedChannel chans_closed"
    using dispatchSample_blocks [OF d, of eventMap_yx 1 chans_closed, unfolded t f2]
    by (simp add: delivered_Nil o')
  from d t f a b p show ?thesis
    by blast
qed

end
